theory Spec2Isabelle
  imports Complex_Main
begin

section \<open>The model of \<^verbatim>\<open>app/services/scraper.py\<close> and \<^verbatim>\<open>app/api/routes.py\<close>\<close>

text \<open>
  The development follows the Python sources function by function. Python integers
  are \<^typ>\<open>int\<close>, strings are \<^typ>\<open>string\<close>, \<^verbatim>\<open>None\<close> is \<^term>\<open>None\<close>, a raised
  exception is the left summand of a sum type, and every effect (HTTP requests,
  \<^verbatim>\<open>time.sleep\<close>, the \<^verbatim>\<open>lru_cache\<close>, the SQLite table) is a field of an explicit
  state that the functions pass along. Logging is left out: no result depends on it.
  Strings are lists of 8-bit characters, so texts are Latin-1 here.
\<close>

subsection \<open>Exceptions\<close>

datatype exn =
    ValueError string
  | IndexError string
  | OverflowError string
  | OSError string
  | RequestException string
  | SQLAlchemyError string

text \<open>
  \<^verbatim>\<open>str(e)\<close>, used by \<^verbatim>\<open>process_single_pair\<close> for the message of an error entry. The
  message of an exception that the environment raises is given by the environment; the
  messages of the exceptions that \<^verbatim>\<open>int\<close>, \<^verbatim>\<open>float\<close> and \<^verbatim>\<open>strptime\<close> raise are
  shortened here (Python adds the offending text), and no statement below depends on
  their wording.
\<close>

fun str_exn :: "exn \<Rightarrow> string" where
  "str_exn (ValueError m) = m"
| "str_exn (IndexError m) = m"
| "str_exn (OverflowError m) = m"
| "str_exn (OSError m) = m"
| "str_exn (RequestException m) = m"
| "str_exn (SQLAlchemyError m) = m"

text \<open>The handler \<^verbatim>\<open>except (ValueError, IndexError)\<close> of \<^verbatim>\<open>parse_exchange_data\<close>.\<close>

fun is_ValueError_or_IndexError :: "exn \<Rightarrow> bool" where
  "is_ValueError_or_IndexError (ValueError m) = True"
| "is_ValueError_or_IndexError (IndexError m) = True"
| "is_ValueError_or_IndexError e = False"

definition bind_exn :: "exn + 'a \<Rightarrow> ('a \<Rightarrow> exn + 'b) \<Rightarrow> exn + 'b" where
  "bind_exn m f = (case m of Inl e \<Rightarrow> Inl e | Inr x \<Rightarrow> f x)"

subsection \<open>Chunk planning in \<^verbatim>\<open>get_exchange_data\<close> (scraper.py, lines 64--74)\<close>

text \<open>
  \<^verbatim>\<open>three_months = 90 * 24 * 60 * 60\<close>, then the loop \<^verbatim>\<open>while current_from < to_date\<close>
  that appends \<^verbatim>\<open>(current_from, current_to)\<close> and goes on from \<^verbatim>\<open>current_to + 1\<close>.
  The source keeps the two bounds of a chunk as decimal strings (\<^verbatim>\<open>str(current_from)\<close>);
  the model keeps the integers they denote.
\<close>

definition three_months :: int where
  "three_months = 90 * 24 * 60 * 60"

function chunk_loop :: "int \<Rightarrow> int \<Rightarrow> (int \<times> int) list \<Rightarrow> (int \<times> int) list" where
  "chunk_loop current_from to_date chunks =
     (if current_from < to_date then
        (let current_to = min (current_from + three_months) to_date
         in chunk_loop (current_to + 1) to_date (chunks @ [(current_from, current_to)]))
      else chunks)"
  by pat_completeness auto
termination
  by (relation "measure (\<lambda>(current_from, to_date, chunks). nat (to_date - current_from))")
     (auto simp: three_months_def Let_def min_def)

declare chunk_loop.simps [simp del]

definition plan_chunks :: "int \<Rightarrow> int \<Rightarrow> (int \<times> int) list" where
  "plan_chunks from_date to_date = chunk_loop from_date to_date []"

text \<open>
  Each window starts one second after the previous one ends: as ranges of whole
  seconds, consecutive windows neither overlap nor skip a second.
\<close>

fun adjacent :: "(int \<times> int) list \<Rightarrow> bool" where
  "adjacent [] = True"
| "adjacent [w] = True"
| "adjacent (w # v # ws) = (fst v = snd w + 1 \<and> adjacent (v # ws))"

text \<open>The same loop without the accumulator, for the proofs.\<close>

function windows :: "int \<Rightarrow> int \<Rightarrow> (int \<times> int) list" where
  "windows f t =
     (if f < t then (f, min (f + three_months) t) # windows (min (f + three_months) t + 1) t
      else [])"
  by pat_completeness auto
termination
  by (relation "measure (\<lambda>(f, t). nat (t - f))")
     (auto simp: three_months_def min_def)

declare windows.simps [simp del]

subsection \<open>Python string operations\<close>

text \<open>
  \<^verbatim>\<open>str.strip()\<close> removes the characters for which \<^verbatim>\<open>str.isspace()\<close> holds; below
  code point 256 these are 9--13, 28--32, 133 and 160.
\<close>

definition py_isspace :: "char \<Rightarrow> bool" where
  "py_isspace c = ((of_char c :: nat) \<in> {9, 10, 11, 12, 13, 28, 29, 30, 31, 32, 133, 160})"

definition strip :: "string \<Rightarrow> string" where
  "strip s = rev (dropWhile py_isspace (rev (dropWhile py_isspace s)))"

text \<open>\<^verbatim>\<open>text.replace(',', '')\<close>\<close>

definition remove_commas :: "string \<Rightarrow> string" where
  "remove_commas s = filter (\<lambda>c. c \<noteq> CHR '','') s"

definition is_digit :: "char \<Rightarrow> bool" where
  "is_digit c = (48 \<le> (of_char c :: nat) \<and> (of_char c :: nat) \<le> 57)"

definition digit_val :: "char \<Rightarrow> nat" where
  "digit_val c = of_char c - 48"

text \<open>
  \<^verbatim>\<open>int(s)\<close> on a string, base 10. The whitespace that \<^verbatim>\<open>int\<close> drops around the
  literal is not that of \<^verbatim>\<open>str.strip\<close>: below code point 256 it is 9--13, 32, 133 and
  160 (the characters 28--31 are not dropped). Then come an optional sign and decimal
  digits, single underscores allowed between digits; anything else raises
  \<^verbatim>\<open>ValueError\<close>, and so does a literal of more than \<^verbatim>\<open>sys.get_int_max_str_digits()\<close>
  digits (4300 unless the interpreter is configured otherwise).
\<close>

definition int_isspace :: "char \<Rightarrow> bool" where
  "int_isspace c = ((of_char c :: nat) \<in> {9, 10, 11, 12, 13, 32, 133, 160})"

definition int_strip :: "string \<Rightarrow> string" where
  "int_strip s = rev (dropWhile int_isspace (rev (dropWhile int_isspace s)))"

definition int_max_str_digits :: nat where
  "int_max_str_digits = 4300"

fun digits_ok :: "string \<Rightarrow> bool" where
  "digits_ok [] = False"
| "digits_ok [c] = is_digit c"
| "digits_ok (c # d # cs) =
     (is_digit c \<and> (if d = CHR ''_'' then digits_ok cs else digits_ok (d # cs)))"

definition py_int :: "string \<Rightarrow> exn + int" where
  "py_int s =
     (let t = int_strip s;
          neg = (case t of [] \<Rightarrow> False | c # cs \<Rightarrow> c = CHR ''-'');
          body = (case t of [] \<Rightarrow> []
                  | c # cs \<Rightarrow> if c = CHR ''-'' \<or> c = CHR ''+'' then cs else t);
          digits = filter (\<lambda>c. c \<noteq> CHR ''_'') body
      in if \<not> digits_ok body
         then Inl (ValueError ''invalid literal for int() with base 10'')
         else if length digits > int_max_str_digits
         then Inl (ValueError ''Exceeds the limit (4300 digits) for integer string conversion'')
         else Inr ((if neg then - 1 else 1) * int (foldl (\<lambda>n c. 10 * n + digit_val c) 0 digits)))"

text \<open>
  Decimal digits. \<open>decimal n\<close> is \<open>n\<close> printed without padding, \<open>decimal2\<close> and
  \<open>decimal4\<close> print two and four digits with leading zeros (\<^verbatim>\<open>%02d\<close>, \<^verbatim>\<open>%04d\<close>) for
  numbers below 100 and below 10000.
\<close>

definition digit_char :: "nat \<Rightarrow> char" where
  "digit_char n = char_of (48 + n)"

function decimal :: "nat \<Rightarrow> string" where
  "decimal n = (if n < 10 then [digit_char n] else decimal (n div 10) @ [digit_char (n mod 10)])"
  by pat_completeness auto
termination
  by (relation "measure (\<lambda>n. n)") auto

declare decimal.simps [simp del]

definition decimal2 :: "nat \<Rightarrow> string" where
  "decimal2 n = [digit_char (n div 10), digit_char (n mod 10)]"

definition decimal4 :: "nat \<Rightarrow> string" where
  "decimal4 n = [digit_char (n div 1000), digit_char (n div 100 mod 10),
                 digit_char (n div 10 mod 10), digit_char (n mod 10)]"



text \<open>\<^verbatim>\<open>'\n'.join(all_data)\<close>\<close>

fun join_lines :: "string list \<Rightarrow> string" where
  "join_lines [] = []"
| "join_lines [x] = x"
| "join_lines (x # y # ys) = x @ [CHR 0x0A] @ join_lines (y # ys)"

subsection \<open>Library functions taken as parameters\<close>

text \<open>
  What the code calls outside the repository and the model does not define is a field
  of this record; \<open>'f\<close> is the type of Python floats.
  \<^item> \<open>soup_rows html\<close>: the rows \<^verbatim>\<open>BeautifulSoup(html, 'html.parser').find_all('tr', class_='yf-j5d1ld')\<close>,
    each as the list of the \<^verbatim>\<open>.text\<close> of its \<^verbatim>\<open>row.find_all('td')\<close>;
  \<^item> \<open>strptime_bdY s\<close>: \<^verbatim>\<open>datetime.strptime(s, '%b %d, %Y')\<close> as (year, month, day),
    \<^term>\<open>None\<close> when it raises \<^verbatim>\<open>ValueError\<close>;
  \<^item> \<open>pads_year\<close>: whether \<^verbatim>\<open>strftime('%Y')\<close> prints a year below 1000 with leading
    zeros (it does from Python 3.13 on; before, on Linux, the C library prints the year
    without padding);
  \<^item> \<open>py_float s\<close>: \<^verbatim>\<open>float(s)\<close>, \<^term>\<open>None\<close> when it raises \<^verbatim>\<open>ValueError\<close>;
  \<^item> \<open>isnan x\<close>: whether the float \<open>x\<close> is a NaN (\<^verbatim>\<open>math.isnan\<close>);
  \<^item> \<open>fromtimestamp_raises t\<close>: the exception that \<^verbatim>\<open>datetime.fromtimestamp(t)\<close> raises,
    if any (\<^verbatim>\<open>ValueError\<close> for a year outside 1..9999, \<^verbatim>\<open>OverflowError\<close> or
    \<^verbatim>\<open>OSError\<close> outside the range of the platform);
  \<^item> \<open>timestamp d\<close>: \<^verbatim>\<open>int(d.timestamp())\<close> of a naive local datetime \<open>d\<close>;
  \<^item> \<open>datetime_ge s d\<close>: \<^verbatim>\<open>datetime.strptime(s, '%Y-%m-%d') >= d\<close>, \<^term>\<open>None\<close> when
    \<^verbatim>\<open>strptime\<close> raises \<^verbatim>\<open>ValueError\<close>.
  A naive datetime is the number of microseconds since 0001-01-01 00:00.
\<close>

record 'f pylib =
  soup_rows :: "string \<Rightarrow> string list list"
  strptime_bdY :: "string \<Rightarrow> (nat \<times> nat \<times> nat) option"
  pads_year :: bool
  py_float :: "string \<Rightarrow> 'f option"
  isnan :: "'f \<Rightarrow> bool"
  fromtimestamp_raises :: "int \<Rightarrow> exn option"
  timestamp :: "int \<Rightarrow> int"
  datetime_ge :: "string \<Rightarrow> int \<Rightarrow> bool option"

definition fromtimestamp_ok :: "'f pylib \<Rightarrow> int \<Rightarrow> bool" where
  "fromtimestamp_ok lib t = (fromtimestamp_raises lib t = None)"

text \<open>
  \<^verbatim>\<open>datetime.strftime('%Y-%m-%d')\<close> of a date given as (year, month, day): the year,
  then month and day with two digits each.
\<close>

definition strftime_Ymd :: "'f pylib \<Rightarrow> nat \<times> nat \<times> nat \<Rightarrow> string" where
  "strftime_Ymd lib d =
     (case d of (y, m, dd) \<Rightarrow>
        (if pads_year lib then decimal4 y else decimal y)
        @ ''-'' @ decimal2 m @ ''-'' @ decimal2 dd)"

definition strptime :: "'f pylib \<Rightarrow> string \<Rightarrow> exn + (nat \<times> nat \<times> nat)" where
  "strptime lib s =
     (case strptime_bdY lib s of
        None \<Rightarrow> Inl (ValueError ''time data does not match format'')
      | Some d \<Rightarrow> Inr d)"

definition to_float :: "'f pylib \<Rightarrow> string \<Rightarrow> exn + 'f" where
  "to_float lib s =
     (case py_float lib s of
        None \<Rightarrow> Inl (ValueError ''could not convert string to float'')
      | Some x \<Rightarrow> Inr x)"

definition timedelta_days :: "int \<Rightarrow> int" where
  "timedelta_days n = n * 86400 * 1000000"

subsection \<open>Records: the dictionaries of \<^verbatim>\<open>parse_exchange_data\<close> and the rows of \<^verbatim>\<open>ExchangeRate\<close>\<close>

text \<open>
  \<open>rate_data\<close> is the dictionary \<^verbatim>\<open>exchange_rate_data\<close> with its eight keys; \<open>'v\<close> is
  the type of the five rates, a float in the dictionary. A row of the table
  \<^verbatim>\<open>exchange_rates\<close> (models/exchange_rate.py) has these columns and two more: the
  primary key \<^verbatim>\<open>id\<close> (here \<open>row_id\<close>) and \<^verbatim>\<open>created_at\<close>. The five \<^verbatim>\<open>Float\<close> columns are
  nullable: in a row a rate is a float or \<^verbatim>\<open>NULL\<close> (\<^term>\<open>None\<close>).
\<close>

record 'v rate_data =
  currency_pair :: string
  date :: string
  open_rate :: 'v
  high_rate :: 'v
  low_rate :: 'v
  close_rate :: 'v
  adj_close :: 'v
  volume :: int

record 'f exchange_rate = "'f option rate_data" +
  row_id :: nat
  created_at :: nat

subsection \<open>\<^verbatim>\<open>parse_exchange_data\<close> (scraper.py, lines 159--216)\<close>

text \<open>The tokens of the validation at lines 189--190.\<close>

definition placeholder :: "string \<Rightarrow> bool" where
  "placeholder t = (t \<in> set [''-'', '''', ''null'', ''None''])"

text \<open>
  The body of the \<^verbatim>\<open>try\<close> block for one row with at least seven cells (lines
  182--205): \<open>Inr None\<close> is a \<^verbatim>\<open>continue\<close>, \<open>Inr (Some d)\<close> is \<^verbatim>\<open>data.append(d)\<close>,
  \<open>Inl e\<close> is an exception raised inside the block.
\<close>

definition try_row :: "'f pylib \<Rightarrow> string \<Rightarrow> string list \<Rightarrow> exn + 'f rate_data option" where
  "try_row lib pair cols =
     (let date_str = strip (cols ! 0) in
      if date_str = [] then Inr None
      else
        bind_exn (strptime lib date_str) (\<lambda>d.
          let date' = strftime_Ymd lib d in
          if (\<exists>col \<in> set (take 5 (drop 1 cols)). placeholder (strip col)) then Inr None
          else
            bind_exn (to_float lib (remove_commas (cols ! 1))) (\<lambda>open'.
            bind_exn (to_float lib (remove_commas (cols ! 2))) (\<lambda>high'.
            bind_exn (to_float lib (remove_commas (cols ! 3))) (\<lambda>low'.
            bind_exn (to_float lib (remove_commas (cols ! 4))) (\<lambda>close'.
            bind_exn (to_float lib (remove_commas (cols ! 5))) (\<lambda>adj'.
            bind_exn (if strip (cols ! 6) \<noteq> ''-'' then py_int (remove_commas (cols ! 6)) else Inr 0)
              (\<lambda>volume'.
                Inr (Some \<lparr>currency_pair = pair, date = date', open_rate = open',
                       high_rate = high', low_rate = low', close_rate = close',
                       adj_close = adj', volume = volume'\<rparr>)))))))))"

text \<open>
  The loop \<^verbatim>\<open>for row in rows\<close> (lines 178--209) with its handler: a \<^verbatim>\<open>ValueError\<close>
  or \<^verbatim>\<open>IndexError\<close> skips the row, any other exception leaves the function.
\<close>

fun rows_loop :: "'f pylib \<Rightarrow> string \<Rightarrow> string list list \<Rightarrow> 'f rate_data list
    \<Rightarrow> exn + 'f rate_data list" where
  "rows_loop lib pair [] data = Inr data"
| "rows_loop lib pair (cols # rows) data =
     (if length cols \<ge> 7 then
        (case try_row lib pair cols of
           Inl e \<Rightarrow>
             if is_ValueError_or_IndexError e then rows_loop lib pair rows data else Inl e
         | Inr None \<Rightarrow> rows_loop lib pair rows data
         | Inr (Some d) \<Rightarrow> rows_loop lib pair rows (data @ [d]))
      else rows_loop lib pair rows data)"

definition parse_exchange_data :: "'f pylib \<Rightarrow> string \<Rightarrow> string
    \<Rightarrow> exn + 'f rate_data list option" where
  "parse_exchange_data lib html_content pair =
     (if html_content = [] then Inr None
      else
        let rows = soup_rows lib html_content in
        if rows = [] then Inr None
        else
          (case rows_loop lib pair rows [] of
             Inl e \<Rightarrow> Inl e
           | Inr data \<Rightarrow> if data = [] then Inr None else Inr (Some data)))"

subsection \<open>The table and \<^verbatim>\<open>save_to_database\<close> (scraper.py, lines 218--243)\<close>

text \<open>
  What a session meets while it runs: \<open>utcnow i\<close> is \<^verbatim>\<open>datetime.utcnow()\<close> when the
  \<open>i\<close>-th statement of the batch is executed (the default of \<^verbatim>\<open>created_at\<close>),
  \<open>execute_error i\<close> is the message of the \<^verbatim>\<open>SQLAlchemyError\<close> that
  \<^verbatim>\<open>session.execute\<close> raises when the database runs the \<open>i\<close>-th statement, if any,
  and \<open>commit_error\<close> that of \<^verbatim>\<open>session.commit()\<close>.
\<close>

record db_env =
  utcnow :: "nat \<Rightarrow> nat"
  execute_error :: "nat \<Rightarrow> string option"
  commit_error :: "string option"

text \<open>The unique constraint \<^verbatim>\<open>unique_currency_date\<close> is on these two columns.\<close>

definition key_of :: "('v, 'a) rate_data_scheme \<Rightarrow> string \<times> string" where
  "key_of r = (currency_pair r, date r)"

text \<open>
  The parameters of a statement as SQLite takes them. An integer must fit 64 bits
  (\<^verbatim>\<open>sqlite3\<close> raises \<^verbatim>\<open>OverflowError\<close> otherwise); a float that is a NaN is stored as
  \<^verbatim>\<open>NULL\<close>.
\<close>

definition int64 :: "int \<Rightarrow> bool" where
  "int64 v = (- (2 ^ 63) \<le> v \<and> v < 2 ^ 63)"

definition sql_float :: "'f pylib \<Rightarrow> 'f \<Rightarrow> 'f option" where
  "sql_float lib x = (if isnan lib x then None else Some x)"

definition sql_values :: "'f pylib \<Rightarrow> 'f rate_data \<Rightarrow> 'f option rate_data" where
  "sql_values lib d =
     \<lparr>currency_pair = currency_pair d, date = date d, open_rate = sql_float lib (open_rate d),
      high_rate = sql_float lib (high_rate d), low_rate = sql_float lib (low_rate d),
      close_rate = sql_float lib (close_rate d), adj_close = sql_float lib (adj_close d),
      volume = volume d\<rparr>"

text \<open>A SQLite integer primary key: the largest row id plus one.\<close>

definition next_id :: "'f exchange_rate list \<Rightarrow> nat" where
  "next_id tbl = foldr max (map row_id tbl) 0 + 1"

text \<open>\<^verbatim>\<open>set_=rate_data\<close>: the eight columns of the dictionary are overwritten.\<close>

definition on_conflict_do_update :: "'f option rate_data \<Rightarrow> 'f exchange_rate \<Rightarrow> 'f exchange_rate" where
  "on_conflict_do_update d r =
     r\<lparr>currency_pair := currency_pair d, date := date d, open_rate := open_rate d,
       high_rate := high_rate d, low_rate := low_rate d, close_rate := close_rate d,
       adj_close := adj_close d, volume := volume d\<rparr>"

definition insert_values :: "nat \<Rightarrow> 'f option rate_data \<Rightarrow> 'f exchange_rate list \<Rightarrow> 'f exchange_rate" where
  "insert_values now d tbl =
     \<lparr>currency_pair = currency_pair d, date = date d, open_rate = open_rate d,
      high_rate = high_rate d, low_rate = low_rate d, close_rate = close_rate d,
      adj_close = adj_close d, volume = volume d,
      row_id = next_id tbl, created_at = now\<rparr>"

text \<open>
  The effect of one statement \<^verbatim>\<open>insert(ExchangeRate).values(**rate_data).on_conflict_do_update(...)\<close>
  on the table: the row with the same (currency_pair, date) is updated, otherwise a
  row is inserted.
\<close>

definition upsert :: "nat \<Rightarrow> 'f option rate_data \<Rightarrow> 'f exchange_rate list \<Rightarrow> 'f exchange_rate list" where
  "upsert now d tbl =
     (if (\<exists>r \<in> set tbl. key_of r = key_of d)
      then map (\<lambda>r. if key_of r = key_of d then on_conflict_do_update d r else r) tbl
      else tbl @ [insert_values now d tbl])"

text \<open>
  \<^verbatim>\<open>session.execute(stmt)\<close> for the \<open>i\<close>-th dictionary of the batch, on the session's
  view of the table: binding the parameters raises \<^verbatim>\<open>OverflowError\<close> for a volume
  outside 64 bits, the database may refuse the statement, otherwise the view changes.
\<close>

definition session_execute :: "'f pylib \<Rightarrow> db_env \<Rightarrow> nat \<Rightarrow> 'f rate_data \<Rightarrow> 'f exchange_rate list
    \<Rightarrow> exn + 'f exchange_rate list" where
  "session_execute lib s i d tbl =
     (if \<not> int64 (volume d)
      then Inl (OverflowError ''Python int too large to convert to SQLite INTEGER'')
      else
        (case execute_error s i of
           Some m \<Rightarrow> Inl (SQLAlchemyError m)
         | None \<Rightarrow> Inr (upsert (utcnow s i) (sql_values lib d) tbl)))"

text \<open>The loop \<^verbatim>\<open>for rate_data in exchange_rates: session.execute(stmt)\<close>.\<close>

fun execute_all :: "'f pylib \<Rightarrow> db_env \<Rightarrow> nat \<Rightarrow> 'f rate_data list \<Rightarrow> 'f exchange_rate list
    \<Rightarrow> exn + 'f exchange_rate list" where
  "execute_all lib s i [] tbl = Inr tbl"
| "execute_all lib s i (d # ds) tbl =
     (case session_execute lib s i d tbl of
        Inl x \<Rightarrow> Inl x
      | Inr tbl' \<Rightarrow> execute_all lib s (Suc i) ds tbl')"

subsection \<open>The state and its environment\<close>

text \<open>
  A response to \<^verbatim>\<open>requests.get\<close>: a status code with the body, or an exception raised
  in the \<^verbatim>\<open>try\<close> block of \<^verbatim>\<open>_fetch_data_with_retry\<close>.
\<close>

datatype response = Response nat string | Raises exn

text \<open>
  \<open>http_get n (quote, from_date, to_date)\<close> is what the \<open>n\<close>-th request of the run meets
  (the URL is built from these three values); \<open>session n\<close> is what the \<open>n\<close>-th
  session opened by \<^verbatim>\<open>save_to_database\<close> meets; \<open>completion chunks\<close> is the order in
  which the tasks that the thread pool runs for \<open>chunks\<close> finish.
\<close>

record env =
  http_get :: "nat \<Rightarrow> string \<times> int \<times> int \<Rightarrow> response"
  session :: "nat \<Rightarrow> db_env"
  completion :: "(int \<times> int) list \<Rightarrow> (int \<times> int) list"

text \<open>
  \<open>nreq\<close>: requests made so far; \<open>slept\<close>: the arguments of \<^verbatim>\<open>time.sleep\<close> so far;
  \<open>cache\<close>: the \<^verbatim>\<open>lru_cache\<close> of \<^verbatim>\<open>_fetch_chunk\<close>, most recently used first, keyed by
  the arguments (self, quote, from_date, to_date); \<open>table\<close>: the committed rows of
  \<^verbatim>\<open>exchange_rates\<close>; \<open>nsession\<close>: sessions opened so far; \<open>ninstance\<close>: scrapers
  constructed so far (a scraper is identified by its number).
\<close>

record 'f world =
  nreq :: nat
  slept :: "nat list"
  cache :: "((nat \<times> string \<times> int \<times> int) \<times> string option) list"
  table :: "'f exchange_rate list"
  nsession :: nat
  ninstance :: nat

text \<open>
  \<^verbatim>\<open>save_to_database\<close>. An empty batch returns before a session is opened. Otherwise
  the statements run on the session's view of the table and \<^verbatim>\<open>session.commit()\<close>
  makes the view the committed table. An exception leaves the \<^verbatim>\<open>try\<close> block before
  that: a \<^verbatim>\<open>SQLAlchemyError\<close> goes through \<^verbatim>\<open>session.rollback()\<close> and \<^verbatim>\<open>raise\<close>, any
  other exception past the handler, and \<^verbatim>\<open>session.close()\<close> in the \<^verbatim>\<open>finally\<close> block
  drops the view in both cases, so the committed table is what it was.
\<close>

definition save_to_database :: "'f pylib \<Rightarrow> env \<Rightarrow> 'f rate_data list \<Rightarrow> 'f world
    \<Rightarrow> (exn + unit) \<times> 'f world" where
  "save_to_database lib e exchange_rates w =
     (if exchange_rates = [] then (Inr (), w)
      else
        let s = session e (nsession w);
            w1 = w\<lparr>nsession := nsession w + 1\<rparr>
        in (case execute_all lib s 0 exchange_rates (table w) of
              Inl x \<Rightarrow> (Inl x, w1)
            | Inr tbl \<Rightarrow>
                (case commit_error s of
                   Some m \<Rightarrow> (Inl (SQLAlchemyError m), w1)
                 | None \<Rightarrow> (Inr (), w1\<lparr>table := tbl\<rparr>))))"

subsection \<open>\<^verbatim>\<open>_fetch_data_with_retry\<close> and \<^verbatim>\<open>_fetch_chunk\<close> (scraper.py, lines 119--157)\<close>

text \<open>The loop \<^verbatim>\<open>for attempt in range(max_retries)\<close>, from \<open>attempt\<close> on.\<close>

function retry_loop :: "env \<Rightarrow> string \<times> int \<times> int \<Rightarrow> nat \<Rightarrow> nat \<Rightarrow> 'f world
    \<Rightarrow> (exn + string option) \<times> 'f world" where
  "retry_loop e url max_retries attempt w =
     (if attempt < max_retries then
        (let w1 = w\<lparr>nreq := nreq w + 1\<rparr> in
         case http_get e (nreq w) url of
           Response status_code text \<Rightarrow>
             if status_code = 200 then (Inr (Some text), w1)
             else retry_loop e url max_retries (attempt + 1) w1
         | Raises x \<Rightarrow>
             if attempt = max_retries - 1 then (Inl x, w1)
             else retry_loop e url max_retries (attempt + 1) (w1\<lparr>slept := slept w1 @ [2 ^ attempt]\<rparr>))
      else (Inr None, w))"
  by pat_completeness auto
termination
  by (relation "measure (\<lambda>(e, url, max_retries, attempt, w). max_retries - attempt)") auto

declare retry_loop.simps [simp del]

definition fetch_data_with_retry :: "env \<Rightarrow> string \<Rightarrow> int \<Rightarrow> int \<Rightarrow> nat \<Rightarrow> 'f world
    \<Rightarrow> (exn + string option) \<times> 'f world" where
  "fetch_data_with_retry e quote from_date to_date max_retries w =
     retry_loop e (quote, from_date, to_date) max_retries 0 w"

text \<open>The body of \<^verbatim>\<open>_fetch_chunk\<close>: \<^verbatim>\<open>max_retries\<close> has its default 3, an exception becomes \<^verbatim>\<open>None\<close>.\<close>

definition fetch_chunk_body :: "env \<Rightarrow> string \<Rightarrow> int \<Rightarrow> int \<Rightarrow> 'f world \<Rightarrow> string option \<times> 'f world" where
  "fetch_chunk_body e quote from_date to_date w =
     (case fetch_data_with_retry e quote from_date to_date 3 w of
        (Inl x, w') \<Rightarrow> (None, w')
      | (Inr r, w') \<Rightarrow> (r, w'))"

text \<open>
  \<^verbatim>\<open>@lru_cache(maxsize=32)\<close>: a hit returns the stored value and makes the entry the
  most recent one; a miss calls the function, stores whatever it returns and, when the
  cache is full, drops the least recently used entry.
\<close>

definition maxsize :: nat where
  "maxsize = 32"

definition fetch_chunk :: "env \<Rightarrow> nat \<Rightarrow> string \<Rightarrow> int \<Rightarrow> int \<Rightarrow> 'f world \<Rightarrow> string option \<times> 'f world" where
  "fetch_chunk e self quote from_date to_date w =
     (let key = (self, quote, from_date, to_date) in
      case map_of (cache w) key of
        Some v \<Rightarrow> (v, w\<lparr>cache := (key, v) # filter (\<lambda>kv. fst kv \<noteq> key) (cache w)\<rparr>)
      | None \<Rightarrow>
          (case fetch_chunk_body e quote from_date to_date w of
             (v, w') \<Rightarrow> (v, w'\<lparr>cache := take maxsize ((key, v) # cache w')\<rparr>)))"

subsection \<open>\<^verbatim>\<open>_fetch_and_save_chunk\<close> and \<^verbatim>\<open>get_exchange_data\<close> (scraper.py, lines 43--117)\<close>

text \<open>
  Truthiness of an optional string or list: \<^verbatim>\<open>None\<close>, \<^verbatim>\<open>''\<close> and \<^verbatim>\<open>[]\<close> are false.
\<close>

fun truthy :: "'a list option \<Rightarrow> bool" where
  "truthy None = False"
| "truthy (Some s) = (s \<noteq> [])"

definition fetch_and_save_chunk :: "'f pylib \<Rightarrow> env \<Rightarrow> nat \<Rightarrow> string \<Rightarrow> int \<Rightarrow> int \<Rightarrow> 'f world
    \<Rightarrow> (exn + string option) \<times> 'f world" where
  "fetch_and_save_chunk lib e self quote chunk_from chunk_to w =
     (case fetch_chunk e self quote chunk_from chunk_to w of
        (chunk_data, w1) \<Rightarrow>
          if truthy chunk_data then
            (case parse_exchange_data lib (the chunk_data) quote of
               Inl x \<Rightarrow> (Inl x, w1)
             | Inr parsed_data \<Rightarrow>
                 if truthy parsed_data then
                   (case save_to_database lib e (the parsed_data) w1 of
                      (Inl x, w2) \<Rightarrow> (Inl x, w2)
                    | (Inr u, w2) \<Rightarrow> (Inr chunk_data, w2))
                 else (Inr chunk_data, w1))
          else (Inr chunk_data, w1))"

text \<open>
  The tasks submitted to the \<^verbatim>\<open>ThreadPoolExecutor\<close> and the loop over
  \<^verbatim>\<open>as_completed\<close> (lines 77--98). The threads of the pool run the tasks side by
  side and \<^verbatim>\<open>as_completed\<close> yields them as they finish, so the order is not that of
  submission. The model takes the order from the environment: \<open>task_order e chunks\<close>
  is a rearrangement of \<open>chunks\<close>, and the tasks run and are collected in that order,
  each task as a whole (the steps of two tasks are not interleaved). A task that
  raises is logged and adds nothing; the loop goes on with the next one.
\<close>

definition task_order :: "env \<Rightarrow> (int \<times> int) list \<Rightarrow> (int \<times> int) list" where
  "task_order e chunks =
     (let cs = completion e chunks
      in if distinct cs \<and> set cs = set chunks \<and> length cs = length chunks then cs else chunks)"

fun run_chunks :: "'f pylib \<Rightarrow> env \<Rightarrow> nat \<Rightarrow> string \<Rightarrow> (int \<times> int) list \<Rightarrow> string list
    \<Rightarrow> 'f world \<Rightarrow> string list \<times> 'f world" where
  "run_chunks lib e self quote [] all_data w = (all_data, w)"
| "run_chunks lib e self quote (c # chunks) all_data w =
     (case fetch_and_save_chunk lib e self quote (fst c) (snd c) w of
        (Inr data, w1) \<Rightarrow>
          run_chunks lib e self quote chunks
            (if truthy data then all_data @ [the data] else all_data) w1
      | (Inl exc, w1) \<Rightarrow> run_chunks lib e self quote chunks all_data w1)"

text \<open>
  \<^verbatim>\<open>get_exchange_data\<close>. The first log line formats both timestamps with
  \<^verbatim>\<open>datetime.fromtimestamp\<close>, which raises outside the supported range; the start of
  the range is formatted first.
\<close>

definition get_exchange_data :: "'f pylib \<Rightarrow> env \<Rightarrow> nat \<Rightarrow> string \<Rightarrow> int \<Rightarrow> int \<Rightarrow> 'f world
    \<Rightarrow> (exn + string option) \<times> 'f world" where
  "get_exchange_data lib e self quote from_date to_date w =
     (case fromtimestamp_raises lib from_date of
        Some x \<Rightarrow> (Inl x, w)
      | None \<Rightarrow>
          (case fromtimestamp_raises lib to_date of
             Some x \<Rightarrow> (Inl x, w)
           | None \<Rightarrow>
               (case run_chunks lib e self quote (task_order e (plan_chunks from_date to_date)) [] w of
                  (all_data, w') \<Rightarrow>
                    (Inr (if all_data \<noteq> [] then Some (join_lines all_data) else None), w'))))"

subsection \<open>\<^verbatim>\<open>parse_period\<close> and \<^verbatim>\<open>process_single_pair\<close> (routes.py, lines 26--53 and 154--225)\<close>

definition period_mapping :: "(string \<times> int) list" where
  "period_mapping =
     [(''1W'', timedelta_days 7), (''1M'', timedelta_days 30), (''3M'', timedelta_days 90),
      (''6M'', timedelta_days 180), (''1Y'', timedelta_days 365)]"

text \<open>\<^verbatim>\<open>period.upper()\<close>; only the letters a--z matter for the keys of the mapping.\<close>

definition upper :: "string \<Rightarrow> string" where
  "upper s = map (\<lambda>c. if 97 \<le> (of_char c :: nat) \<and> (of_char c :: nat) \<le> 122
                      then char_of ((of_char c :: nat) - 32) else c) s"

definition parse_period :: "string \<Rightarrow> exn + int" where
  "parse_period period =
     (case map_of period_mapping (upper period) of
        Some delta \<Rightarrow> Inr delta
      | None \<Rightarrow> Inl (ValueError (''Invalid period: '' @ period @ ''. Supported periods are 1W, 1M, 3M, 6M, 1Y'')))"

definition periods :: "string list" where
  "periods = [''1W'', ''1M'', ''3M'', ''6M'', ''1Y'']"

text \<open>
  An entry of the result: \<^verbatim>\<open>{'status': 'success', 'records': n}\<close> or
  \<^verbatim>\<open>{'status': 'error', 'message': m}\<close>. The result itself is a dictionary with one key,
  the currency pair, holding a dictionary from periods to entries.
\<close>

datatype period_result = Success nat | Error string

type_synonym summary = "(string \<times> (string \<times> period_result) list) list"

definition all_periods :: "string \<Rightarrow> string \<Rightarrow> summary" where
  "all_periods pair message = [(pair, map (\<lambda>period. (period, Error message)) periods)]"

text \<open>The list comprehension at lines 206--209 of routes.py, counted.\<close>

fun period_records :: "'f pylib \<Rightarrow> 'f rate_data list \<Rightarrow> int \<Rightarrow> exn + nat" where
  "period_records lib [] period_start = Inr 0"
| "period_records lib (rate # rates) period_start =
     (case datetime_ge lib (date rate) period_start of
        None \<Rightarrow> Inl (ValueError ''time data does not match format'')
      | Some b \<Rightarrow>
          bind_exn (period_records lib rates period_start)
            (\<lambda>n. Inr (if b then Suc n else n)))"

text \<open>The loop \<^verbatim>\<open>for period in periods\<close> at lines 203--214 of routes.py.\<close>

fun periods_loop :: "'f pylib \<Rightarrow> 'f rate_data list \<Rightarrow> int \<Rightarrow> string list
    \<Rightarrow> (string \<times> period_result) list \<Rightarrow> exn + (string \<times> period_result) list" where
  "periods_loop lib exchange_rates end_date [] results = Inr results"
| "periods_loop lib exchange_rates end_date (period # ps) results =
     bind_exn (parse_period period) (\<lambda>period_delta.
     bind_exn (period_records lib exchange_rates (end_date - period_delta)) (\<lambda>n.
       periods_loop lib exchange_rates end_date ps (results @ [(period, Success n)])))"

text \<open>
  The \<^verbatim>\<open>try\<close> block of \<^verbatim>\<open>process_single_pair\<close> from the construction of the scraper
  on (lines 177--216), for a range given as two timestamps. The constructor (which
  opens the database file) is taken to succeed; the new scraper gets the next number.
\<close>

definition sync_try :: "'f pylib \<Rightarrow> env \<Rightarrow> string \<Rightarrow> int \<Rightarrow> int \<Rightarrow> int \<Rightarrow> 'f world
    \<Rightarrow> (exn + summary) \<times> 'f world" where
  "sync_try lib e pair end_date start_ts end_ts w =
     (let scraper = ninstance w;
          w0 = w\<lparr>ninstance := ninstance w + 1\<rparr>
      in case get_exchange_data lib e scraper pair start_ts end_ts w0 of
           (Inl x, w1) \<Rightarrow> (Inl x, w1)
         | (Inr html_content, w1) \<Rightarrow>
             if \<not> truthy html_content then (Inr (all_periods pair ''Failed to fetch data''), w1)
             else
               (case parse_exchange_data lib (the html_content) pair of
                  Inl x \<Rightarrow> (Inl x, w1)
                | Inr exchange_rates \<Rightarrow>
                    if \<not> truthy exchange_rates
                    then (Inr (all_periods pair ''No data found''), w1)
                    else
                      (case save_to_database lib e (the exchange_rates) w1 of
                         (Inl x, w2) \<Rightarrow> (Inl x, w2)
                       | (Inr u, w2) \<Rightarrow>
                           (case periods_loop lib (the exchange_rates) end_date periods [] of
                              Inl x \<Rightarrow> (Inl x, w2)
                            | Inr results \<Rightarrow> (Inr [(pair, results)], w2)))))"

text \<open>With the handler \<^verbatim>\<open>except Exception as e\<close> (lines 218--225).\<close>

definition sync_range :: "'f pylib \<Rightarrow> env \<Rightarrow> string \<Rightarrow> int \<Rightarrow> int \<Rightarrow> int \<Rightarrow> 'f world
    \<Rightarrow> summary \<times> 'f world" where
  "sync_range lib e pair end_date start_ts end_ts w =
     (case sync_try lib e pair end_date start_ts end_ts w of
        (Inl x, w') \<Rightarrow> (all_periods pair (str_exn x), w')
      | (Inr results, w') \<Rightarrow> (results, w'))"


subsection \<open>Words used in the statements\<close>

text \<open>A successful response has status 200; a transport failure is an exception.\<close>

fun ok_response :: "response \<Rightarrow> bool" where
  "ok_response (Response status_code text) = (status_code = 200)"
| "ok_response (Raises x) = False"

fun is_raise :: "response \<Rightarrow> bool" where
  "is_raise (Response status_code text) = False"
| "is_raise (Raises x) = True"

text \<open>The response that attempt \<open>i\<close> of a fetch started in state \<open>w\<close> meets.\<close>

definition attempt_response :: "env \<Rightarrow> 'f world \<Rightarrow> string \<Rightarrow> int \<Rightarrow> int \<Rightarrow> nat \<Rightarrow> response" where
  "attempt_response e w quote from_date to_date i = http_get e (nreq w + i) (quote, from_date, to_date)"

text \<open>What a row contributes to the parsed list: its record, or nothing.\<close>

definition row_records :: "'f pylib \<Rightarrow> string \<Rightarrow> string list \<Rightarrow> 'f rate_data list" where
  "row_records lib pair cols =
     (if length cols \<ge> 7 then
        (case try_row lib pair cols of Inr (Some d) \<Rightarrow> [d] | _ \<Rightarrow> [])
      else [])"

text \<open>The table after all statements of a batch, when none of them fails.\<close>

fun apply_all :: "'f pylib \<Rightarrow> db_env \<Rightarrow> nat \<Rightarrow> 'f rate_data list \<Rightarrow> 'f exchange_rate list
    \<Rightarrow> 'f exchange_rate list" where
  "apply_all lib s i [] tbl = tbl"
| "apply_all lib s i (d # ds) tbl = apply_all lib s (Suc i) ds (upsert (utcnow s i) (sql_values lib d) tbl)"

text \<open>The last dictionary of a batch that has the key \<open>k\<close>, and the position of the first one.\<close>

definition latest :: "'v rate_data list \<Rightarrow> string \<times> string \<Rightarrow> 'v rate_data option" where
  "latest ds k = find (\<lambda>d. key_of d = k) (rev ds)"

definition first_index :: "'v rate_data list \<Rightarrow> string \<times> string \<Rightarrow> nat" where
  "first_index ds k = length (takeWhile (\<lambda>d. key_of d \<noteq> k) ds)"

text \<open>The row stored under the key \<open>k\<close> (\<^verbatim>\<open>SELECT\<close> by currency pair and date).\<close>

definition stored :: "'f exchange_rate list \<Rightarrow> string \<times> string \<Rightarrow> 'f exchange_rate option" where
  "stored tbl k = find (\<lambda>r. key_of r = k) tbl"

text \<open>The eight columns of a row that come from the dictionary.\<close>

definition values_of :: "'f exchange_rate \<Rightarrow> 'f option rate_data" where
  "values_of r =
     \<lparr>currency_pair = currency_pair r, date = date r, open_rate = open_rate r,
      high_rate = high_rate r, low_rate = low_rate r, close_rate = close_rate r,
      adj_close = adj_close r, volume = volume r\<rparr>"

text \<open>A dictionary none of whose rates is a NaN, and the values that a row holds for it then.\<close>

definition has_nan :: "'f pylib \<Rightarrow> 'f rate_data \<Rightarrow> bool" where
  "has_nan lib d =
     (isnan lib (open_rate d) \<or> isnan lib (high_rate d) \<or> isnan lib (low_rate d)
      \<or> isnan lib (close_rate d) \<or> isnan lib (adj_close d))"

definition all_present :: "'f rate_data \<Rightarrow> 'f option rate_data" where
  "all_present d =
     \<lparr>currency_pair = currency_pair d, date = date d, open_rate = Some (open_rate d),
      high_rate = Some (high_rate d), low_rate = Some (low_rate d),
      close_rate = Some (close_rate d), adj_close = Some (adj_close d), volume = volume d\<rparr>"

text \<open>A session accepts a batch of \<open>n\<close> statements: none of them is refused, nor is the commit.\<close>

definition session_accepts :: "db_env \<Rightarrow> nat \<Rightarrow> bool" where
  "session_accepts s n = (list_all (\<lambda>i. execute_error s i = None) [0..<n] \<and> commit_error s = None)"

subsection \<open>Sample inputs\<close>

text \<open>
  Concrete states, environments and library functions for the examples. A sample
  float is a rational number or NaN. The sample library reads as floats the integer
  literals up to \<open>2 ^ 53\<close> in magnitude (which \<^verbatim>\<open>float\<close> reads exactly) and
  \<^verbatim>\<open>nan\<close> in any case of letters, and it knows the dates of the examples; the
  examples use no other text.
\<close>

datatype float_value = Finite rat | NaN

definition world0 :: "float_value world" where
  "world0 = \<lparr>nreq = 0, slept = [], cache = [], table = [], nsession = 0, ninstance = 0\<rparr>"

text \<open>The \<open>n\<close>-th session of a database that works; its clock starts at \<open>1000 * (n + 1)\<close>.\<close>

definition quiet_session :: "nat \<Rightarrow> db_env" where
  "quiet_session n =
     \<lparr>utcnow = (\<lambda>i. 1000 * (n + 1) + i), execute_error = (\<lambda>i. None), commit_error = None\<rparr>"

text \<open>A session whose second statement fails, and one whose commit fails.\<close>

definition failing_session :: db_env where
  "failing_session =
     \<lparr>utcnow = (\<lambda>i. 5000 + i),
      execute_error = (\<lambda>i. if i = 1 then Some ''database is locked'' else None),
      commit_error = None\<rparr>"


text \<open>
  An environment whose \<open>n\<close>-th request meets \<open>responses ! n\<close> (and a timeout after the
  list); tasks finish in the order of submission.
\<close>

definition env_of :: "response list \<Rightarrow> env" where
  "env_of responses =
     \<lparr>http_get = (\<lambda>n url. if n < length responses then responses ! n
                            else Raises (RequestException ''timed out'')),
      session = quiet_session,
      completion = (\<lambda>chunks. chunks)\<rparr>"

definition failing_env :: env where
  "failing_env =
     \<lparr>http_get = (\<lambda>n url. Raises (RequestException ''timed out'')),
      session = (\<lambda>n. failing_session),
      completion = (\<lambda>chunks. chunks)\<rparr>"

definition rate_a :: "float_value rate_data" where
  "rate_a = \<lparr>currency_pair = ''GBPINR=X'', date = ''2024-01-05'', open_rate = Finite 1,
              high_rate = Finite 2, low_rate = Finite 3, close_rate = Finite 4,
              adj_close = Finite 5, volume = 0\<rparr>"

definition rate_b :: "float_value rate_data" where
  "rate_b = \<lparr>currency_pair = ''GBPINR=X'', date = ''2024-01-05'', open_rate = Finite 11,
              high_rate = Finite 12, low_rate = Finite 13, close_rate = Finite 14,
              adj_close = Finite 15, volume = 7\<rparr>"

definition rate_c :: "float_value rate_data" where
  "rate_c = \<lparr>currency_pair = ''GBPINR=X'', date = ''2024-01-04'', open_rate = Finite 6,
              high_rate = Finite 7, low_rate = Finite 8, close_rate = Finite 9,
              adj_close = Finite 10, volume = 1000\<rparr>"

text \<open>Two more dictionaries for the key of \<open>rate_a\<close>: a close that is NaN, a volume of \<open>2 ^ 63\<close>.\<close>

definition rate_nan :: "float_value rate_data" where
  "rate_nan = \<lparr>currency_pair = ''GBPINR=X'', date = ''2024-01-05'', open_rate = Finite 11,
                high_rate = Finite 12, low_rate = Finite 13, close_rate = NaN,
                adj_close = Finite 15, volume = 7\<rparr>"

definition rate_big :: "float_value rate_data" where
  "rate_big = \<lparr>currency_pair = ''GBPINR=X'', date = ''2024-01-05'', open_rate = Finite 11,
                high_rate = Finite 12, low_rate = Finite 13, close_rate = Finite 14,
                adj_close = Finite 15, volume = 9223372036854775808\<rparr>"

text \<open>
  Rows of the table: under the key of \<open>rate_a\<close> with the values of \<open>rate_a\<close>, of
  \<open>rate_b\<close> and of \<open>rate_nan\<close>, and the row of \<open>rate_c\<close>.
\<close>

definition row_a :: "float_value exchange_rate" where
  "row_a = \<lparr>currency_pair = ''GBPINR=X'', date = ''2024-01-05'', open_rate = Some (Finite 1),
             high_rate = Some (Finite 2), low_rate = Some (Finite 3),
             close_rate = Some (Finite 4), adj_close = Some (Finite 5), volume = 0,
             row_id = 1, created_at = 1000\<rparr>"

definition row_b :: "float_value exchange_rate" where
  "row_b = \<lparr>currency_pair = ''GBPINR=X'', date = ''2024-01-05'', open_rate = Some (Finite 11),
             high_rate = Some (Finite 12), low_rate = Some (Finite 13),
             close_rate = Some (Finite 14), adj_close = Some (Finite 15), volume = 7,
             row_id = 1, created_at = 1000\<rparr>"

definition row_nan :: "float_value exchange_rate" where
  "row_nan = \<lparr>currency_pair = ''GBPINR=X'', date = ''2024-01-05'', open_rate = Some (Finite 11),
               high_rate = Some (Finite 12), low_rate = Some (Finite 13),
               close_rate = None, adj_close = Some (Finite 15), volume = 7,
               row_id = 1, created_at = 1000\<rparr>"

definition row_c :: "float_value exchange_rate" where
  "row_c = \<lparr>currency_pair = ''GBPINR=X'', date = ''2024-01-04'', open_rate = Some (Finite 6),
             high_rate = Some (Finite 7), low_rate = Some (Finite 8),
             close_rate = Some (Finite 9), adj_close = Some (Finite 10), volume = 1000,
             row_id = 2, created_at = 1001\<rparr>"

definition sample_strptime :: "string \<Rightarrow> (nat \<times> nat \<times> nat) option" where
  "sample_strptime s =
     (if s = ''Jan 5, 2024'' then Some (2024, 1, 5)
      else if s = ''Jan 4, 2024'' then Some (2024, 1, 4)
      else if s = ''Jan 5, 0999'' then Some (999, 1, 5)
      else None)"

definition sample_float :: "string \<Rightarrow> float_value option" where
  "sample_float s =
     (if upper (int_strip s) \<in> set [''NAN'', ''+NAN'', ''-NAN''] then Some NaN
      else
        (case py_int s of
           Inl e \<Rightarrow> None
         | Inr i \<Rightarrow> if \<bar>i\<bar> \<le> 2 ^ 53 then Some (Finite (of_int i)) else None))"

definition sample_isnan :: "float_value \<Rightarrow> bool" where
  "sample_isnan x = (x = NaN)"

definition sample_datetime_ge :: "string \<Rightarrow> int \<Rightarrow> bool option" where
  "sample_datetime_ge s d =
     (if s = ''2024-01-05'' then Some (63840009600000000 \<ge> d)
      else if s = ''2024-01-04'' then Some (63839923200000000 \<ge> d)
      else None)"

text \<open>
  Documents and the rows that the HTML parser finds in them: two good rows (the
  first with volume \<^verbatim>\<open>-\<close>), a row whose close is \<^verbatim>\<open>-\<close>, a row whose volume is
  \<^verbatim>\<open>null\<close>, a row whose close is \<^verbatim>\<open>nan\<close>, a row whose volume is wrapped in the
  characters 31 and 28, a row of the year 999, and a page without rows.
\<close>

definition html_two_rows :: string where
  "html_two_rows =
     ''<table><tr class=yf-j5d1ld><td>Jan 5, 2024</td><td>1</td><td>2</td><td>3</td><td>4</td><td>5</td><td>-</td></tr>''
     @ ''<tr class=yf-j5d1ld><td>Jan 4, 2024</td><td>6</td><td>7</td><td>8</td><td>9</td><td>10</td><td>1,000</td></tr></table>''"

definition html_dash_close :: string where
  "html_dash_close =
     ''<table><tr class=yf-j5d1ld><td>Jan 5, 2024</td><td>1</td><td>2</td><td>3</td><td>-</td><td>5</td><td>7</td></tr></table>''"

definition html_null_volume :: string where
  "html_null_volume =
     ''<table><tr class=yf-j5d1ld><td>Jan 5, 2024</td><td>1</td><td>2</td><td>3</td><td>4</td><td>5</td><td>null</td></tr></table>''"

definition html_nan_close :: string where
  "html_nan_close =
     ''<table><tr class=yf-j5d1ld><td>Jan 5, 2024</td><td>1</td><td>2</td><td>3</td><td>nan</td><td>5</td><td>7</td></tr></table>''"

definition html_odd_volume :: string where
  "html_odd_volume =
     ''<table><tr class=yf-j5d1ld><td>Jan 5, 2024</td><td>1</td><td>2</td><td>3</td><td>4</td><td>5</td><td>''
     @ [char_of (31 :: nat)] @ ''7'' @ [char_of (28 :: nat)] @ ''</td></tr></table>''"

definition html_year_999 :: string where
  "html_year_999 =
     ''<table><tr class=yf-j5d1ld><td>Jan 5, 0999</td><td>1</td><td>2</td><td>3</td><td>4</td><td>5</td><td>7</td></tr></table>''"

definition html_no_rows :: string where
  "html_no_rows = ''<html><body>Will be right back</body></html>''"

definition sample_soup :: "string \<Rightarrow> string list list" where
  "sample_soup html =
     (if html = html_two_rows
      then [[''Jan 5, 2024'', ''1'', ''2'', ''3'', ''4'', ''5'', ''-''],
            [''Jan 4, 2024'', ''6'', ''7'', ''8'', ''9'', ''10'', ''1,000'']]
      else if html = html_dash_close
      then [[''Jan 5, 2024'', ''1'', ''2'', ''3'', ''-'', ''5'', ''7'']]
      else if html = html_null_volume
      then [[''Jan 5, 2024'', ''1'', ''2'', ''3'', ''4'', ''5'', ''null'']]
      else if html = html_nan_close
      then [[''Jan 5, 2024'', ''1'', ''2'', ''3'', ''nan'', ''5'', ''7'']]
      else if html = html_odd_volume
      then [[''Jan 5, 2024'', ''1'', ''2'', ''3'', ''4'', ''5'',
             [char_of (31 :: nat)] @ ''7'' @ [char_of (28 :: nat)]]]
      else if html = html_year_999
      then [[''Jan 5, 0999'', ''1'', ''2'', ''3'', ''4'', ''5'', ''7'']]
      else [])"






text \<open>
  The sample library around a given HTML parser, for a machine whose local time is
  UTC, and the same library with the \<^verbatim>\<open>strftime\<close> of Python before 3.13 on Linux.
\<close>

definition sample_lib :: "(string \<Rightarrow> string list list) \<Rightarrow> float_value pylib" where
  "sample_lib soup =
     \<lparr>soup_rows = soup,
      strptime_bdY = sample_strptime,
      pads_year = True,
      py_float = sample_float,
      isnan = sample_isnan,
      fromtimestamp_raises = (\<lambda>t. if - 62135596800 \<le> t \<and> t \<le> 253402300799 then None
                                   else Some (ValueError ''year is out of range'')),
      timestamp = (\<lambda>d. d div 1000000 - 62135596800),
      datetime_ge = sample_datetime_ge\<rparr>"


section \<open>Verification\<close>

subsection \<open>Chunk planning\<close>

lemma ceiling_div_int:
  fixes a b :: int
  assumes "0 < b"
  shows "\<lceil>real_of_int a / real_of_int b\<rceil> = (a + b - 1) div b"
proof -
  have c: "\<lceil>real_of_int a / real_of_int b\<rceil> = - (- a div b)"
    by (rule ceiling_divide_eq_div)
  have "(a + b - 1) div b = - (- a div b)"
  proof (cases "a mod b = 0")
    case True
    then obtain q where q: "a = q * b" by (metis mod_eq_0_iff_dvd dvd_def mult.commute)
    have "q * b + b - 1 = b * q + (b - 1)" by (simp add: algebra_simps)
    moreover have "0 \<le> b - 1" "b - 1 < b" using assms by simp_all
    ultimately have "(q * b + b - 1) div b = q" by (metis int_div_pos_eq)
    moreover have "- (q * b) div b = - q"
    proof -
      have "- (q * b) = b * (- q) + 0" by simp
      then show ?thesis using assms by (metis int_div_pos_eq order_refl)
    qed
    ultimately show ?thesis using q by simp
  next
    case False
    let ?q = "a div b" and ?r = "a mod b"
    have "0 \<le> ?r" "?r < b" using assms by simp_all
    with False have r: "0 < ?r" "?r < b" by simp_all
    have a: "a = ?q * b + ?r" by simp
    have 1: "(a + b - 1) div b = ?q + 1"
    proof -
      have "a + b - 1 = b * (?q + 1) + (?r - 1)" by (simp add: algebra_simps)
      moreover have "0 \<le> ?r - 1" "?r - 1 < b" using r by simp_all
      ultimately show ?thesis using assms by (metis int_div_pos_eq)
    qed
    have 2: "- a div b = - ?q - 1"
      using False assms by (simp add: zdiv_zminus1_eq_if)
    show ?thesis using 1 2 by simp
  qed
  with c show ?thesis by simp
qed

lemma chunk_loop_windows: "chunk_loop f t acc = acc @ windows f t"
proof (induction f t acc rule: chunk_loop.induct)
  case (1 f t acc)
  show ?case
  proof (cases "f < t")
    case True
    then show ?thesis
      using "1.IH"[OF True refl]
      by (subst chunk_loop.simps, subst windows.simps) (simp add: Let_def)
  next
    case False
    then show ?thesis by (simp add: chunk_loop.simps windows.simps)
  qed
qed

lemma plan_chunks_eq_windows: "plan_chunks f t = windows f t"
  by (simp add: plan_chunks_def chunk_loop_windows)

lemma windows_empty: "t \<le> f \<Longrightarrow> windows f t = []"
  by (simp add: windows.simps)

lemma windows_step:
  "f < t \<Longrightarrow> windows f t = (f, min (f + three_months) t) # windows (min (f + three_months) t + 1) t"
  by (subst windows.simps) simp

lemma windows_length:
  "length (windows f t) = nat ((t - f + three_months) div (three_months + 1))"
proof (induction f t rule: windows.induct)
  case (1 f t)
  show ?case
  proof (cases "f < t")
    case False
    then have "(t - f + three_months) div (three_months + 1) \<le> 0"
      by (simp add: three_months_def) 
    with False show ?thesis by (simp add: windows_empty)
  next
    case True
    show ?thesis
    proof (cases "f + three_months < t")
      case far: True
      have st: "windows f t = (f, f + three_months) # windows (f + three_months + 1) t"
        using windows_step[OF True] far by (simp add: min_def)
      have ih: "length (windows (f + three_months + 1) t) =
          nat ((t - (f + three_months + 1) + three_months) div (three_months + 1))"
        using "1.IH"[OF True] far by (simp add: min_def)
      have "(t - f + three_months) div (three_months + 1) =
            (t - (f + three_months + 1) + three_months) div (three_months + 1) + 1"
        by (simp add: three_months_def)
      moreover have "0 \<le> (t - (f + three_months + 1) + three_months) div (three_months + 1)"
        using far by (simp add: three_months_def)
      ultimately show ?thesis using st ih by simp
    next
      case near: False
      have st: "windows f t = [(f, t)]"
        using windows_step[OF True] near by (simp add: min_def windows_empty)
      have "(t - f + three_months) div (three_months + 1) = 1"
        using True near by (simp add: three_months_def)
      then show ?thesis using st by simp
    qed
  qed
qed

lemma windows_adjacent: "adjacent (windows f t)"
proof (induction f t rule: windows.induct)
  case (1 f t)
  show ?case
  proof (cases "f < t")
    case False
    then show ?thesis by (simp add: windows_empty)
  next
    case True
    let ?ct = "min (f + three_months) t"
    have ih: "adjacent (windows (?ct + 1) t)" using "1.IH"[OF True] .
    show ?thesis
    proof (cases "?ct + 1 < t")
      case True2: True
      then show ?thesis using ih windows_step[OF True] windows_step[OF True2] by simp
    next
      case False
      then show ?thesis using windows_step[OF True] by (simp add: windows_empty)
    qed
  qed
qed

lemma windows_span:
  "w \<in> set (windows f t) \<Longrightarrow> fst w < snd w \<and> snd w - fst w \<le> three_months \<and> f \<le> fst w \<and> snd w \<le> t"
proof (induction f t rule: windows.induct)
  case (1 f t)
  show ?case
  proof (cases "f < t")
    case False
    then show ?thesis using "1.prems" by (simp add: windows_empty)
  next
    case True
    let ?ct = "min (f + three_months) t"
    from "1.prems" windows_step[OF True]
    consider "w = (f, ?ct)" | "w \<in> set (windows (?ct + 1) t)" by auto
    then show ?thesis
    proof cases
      case 1
      then show ?thesis using True by (simp add: three_months_def min_def)
    next
      case 2
      from "1.IH"[OF True 2] show ?thesis using True by (simp add: three_months_def min_def split: if_splits)
    qed
  qed
qed

lemma windows_hd: "f < t \<Longrightarrow> fst (hd (windows f t)) = f"
  by (simp add: windows_step)

lemma windows_last:
  "f < t \<Longrightarrow> (t - f) mod (three_months + 1) \<noteq> 0 \<Longrightarrow> snd (last (windows f t)) = t"
proof (induction f t rule: windows.induct)
  case (1 f t)
  have lt: "f < t" by fact
  show ?case
  proof (cases "f + three_months < t")
    case far: True
    have st: "windows f t = (f, f + three_months) # windows (f + three_months + 1) t"
      using windows_step[OF lt] far by (simp add: min_def)
    have ne: "f + three_months + 1 \<noteq> t"
    proof
      assume "f + three_months + 1 = t"
      then have "t - f = three_months + 1" by simp
      with "1.prems"(2) show False by simp
    qed
    with far have lt2: "f + three_months + 1 < t" by simp
    have m: "(t - (f + three_months + 1)) mod (three_months + 1) \<noteq> 0"
    proof -
      have e: "t - (f + three_months + 1) = (t - f) - (three_months + 1)" by simp
      have "(t - (f + three_months + 1)) mod (three_months + 1) = (t - f) mod (three_months + 1)"
        unfolding e by (rule minus_mod_self2)
      then show ?thesis using "1.prems"(2) by (simp only: not_False_eq_True)
    qed
    have ih: "snd (last (windows (f + three_months + 1) t)) = t"
      using "1.IH"[OF lt] far lt2 m by (simp add: min_def)
    have "windows (f + three_months + 1) t \<noteq> []"
      using windows_step[OF lt2] by simp
    then show ?thesis using st ih by simp
  next
    case near: False
    have st: "windows f t = [(f, t)]"
      using windows_step[OF lt] near by (simp add: min_def windows_empty)
    then show ?thesis by simp
  qed
qed

lemma windows_slip:
  "f < t \<Longrightarrow> (t - f) mod (three_months + 1) = 0 \<Longrightarrow> snd (last (windows f t)) = t - 1"
proof (induction f t rule: windows.induct)
  case (1 f t)
  have lt: "f < t" by fact
  have far: "f + three_months < t"
  proof (rule ccontr)
    assume "\<not> f + three_months < t"
    then have "0 < t - f" "t - f < three_months + 1" using lt by simp_all
    then have "(t - f) mod (three_months + 1) = t - f" by simp
    with "1.prems"(2) lt show False by simp
  qed
  have st: "windows f t = (f, f + three_months) # windows (f + three_months + 1) t"
    using windows_step[OF lt] far by (simp add: min_def)
  show ?case
  proof (cases "f + three_months + 1 = t")
    case True
    then show ?thesis using st by (simp add: windows_empty)
  next
    case False
    with far have lt2: "f + three_months + 1 < t" by simp
    have e: "t - (f + three_months + 1) = (t - f) - (three_months + 1)" by simp
    have "(t - (f + three_months + 1)) mod (three_months + 1) = (t - f) mod (three_months + 1)"
      unfolding e by (rule minus_mod_self2)
    then have m: "(t - (f + three_months + 1)) mod (three_months + 1) = 0"
      using "1.prems"(2) by (simp only:)
    have ih: "snd (last (windows (f + three_months + 1) t)) = t - 1"
      using "1.IH"[OF lt] far lt2 m by (simp add: min_def)
    have "windows (f + three_months + 1) t \<noteq> []"
      using windows_step[OF lt2] by simp
    then show ?thesis using st ih by simp
  qed
qed

text \<open>
  C1 (as amended). For \<open>from_date < to_date\<close> the planning loop yields
  \<open>\<lceil>(to_date - from_date) / 7776001\<rceil>\<close> windows (a window of 7,776,000 seconds is
  followed by a step of one second); the first window starts at \<open>from_date\<close>, every
  window has a positive span of at most 90 days (7,776,000 seconds), every next window
  starts one second after the previous one ends, and the last window ends at
  \<open>to_date\<close> whenever \<open>to_date - from_date\<close> is not a multiple of 7,776,001.
\<close>

theorem plan_chunks_windows:
  assumes "from_date < to_date"
  shows "int (length (plan_chunks from_date to_date))
           = \<lceil>real_of_int (to_date - from_date) / real_of_int (three_months + 1)\<rceil>
       \<and> fst (hd (plan_chunks from_date to_date)) = from_date
       \<and> (\<forall>w \<in> set (plan_chunks from_date to_date).
             fst w < snd w \<and> snd w - fst w \<le> three_months)
       \<and> adjacent (plan_chunks from_date to_date)
       \<and> ((to_date - from_date) mod (three_months + 1) \<noteq> 0
             \<longrightarrow> snd (last (plan_chunks from_date to_date)) = to_date)"
proof -
  have pos: "0 < three_months + 1" by (simp add: three_months_def)
  have "\<lceil>real_of_int (to_date - from_date) / real_of_int (three_months + 1)\<rceil>
          = (to_date - from_date + three_months) div (three_months + 1)"
  proof -
    have "to_date - from_date + (three_months + 1) - 1 = to_date - from_date + three_months"
      by simp
    then show ?thesis
      using ceiling_div_int[OF pos, of "to_date - from_date"] by (simp only:)
  qed
  moreover have "0 \<le> (to_date - from_date + three_months) div (three_months + 1)"
    using assms pos by (simp add: three_months_def)
  ultimately have count: "int (length (plan_chunks from_date to_date))
          = \<lceil>real_of_int (to_date - from_date) / real_of_int (three_months + 1)\<rceil>"
    by (simp add: plan_chunks_eq_windows windows_length)
  have first: "fst (hd (plan_chunks from_date to_date)) = from_date"
    using assms by (simp add: plan_chunks_eq_windows windows_hd)
  have span: "\<forall>w \<in> set (plan_chunks from_date to_date).
      fst w < snd w \<and> snd w - fst w \<le> three_months"
    using windows_span[of _ from_date to_date] by (simp add: plan_chunks_eq_windows)
  have adj: "adjacent (plan_chunks from_date to_date)"
    by (simp add: plan_chunks_eq_windows windows_adjacent)
  have last: "(to_date - from_date) mod (three_months + 1) \<noteq> 0
      \<longrightarrow> snd (last (plan_chunks from_date to_date)) = to_date"
    using assms by (simp add: plan_chunks_eq_windows windows_last)
  from count first span adj last show ?thesis by blast
qed

theorem plan_chunks_windows_witness:
  "(0::int) < 20000000
   \<and> (20000000 - 0) mod (three_months + 1) \<noteq> 0
   \<and> plan_chunks 0 20000000 = [(0, 7776000), (7776001, 15552001), (15552002, 20000000)]
   \<and> int (length (plan_chunks 0 20000000))
        = \<lceil>real_of_int (20000000 - 0) / real_of_int (three_months + 1)\<rceil>
   \<and> fst (hd (plan_chunks 0 20000000)) = 0
   \<and> adjacent (plan_chunks 0 20000000)
   \<and> (15552002, 20000000) \<in> set (plan_chunks 0 20000000)
   \<and> snd (15552002 :: int, 20000000 :: int) - fst (15552002 :: int, 20000000 :: int) \<le> three_months
   \<and> snd (last (plan_chunks 0 20000000)) = 20000000"
proof -
  have h: "(0::int) < 20000000" by simp
  have m: "(20000000 - 0) mod (three_months + 1) \<noteq> 0" by (simp add: three_months_def)
  have v: "plan_chunks 0 20000000 = [(0, 7776000), (7776001, 15552001), (15552002, 20000000)]"
    by (simp add: plan_chunks_def chunk_loop.simps three_months_def)
  have i: "(15552002, 20000000) \<in> set (plan_chunks 0 20000000)" unfolding v by simp
  note t = plan_chunks_windows[OF h]
  from t i have "snd (15552002 :: int, 20000000 :: int) - fst (15552002 :: int, 20000000 :: int)
      \<le> three_months"
    by blast
  with t h m v i show ?thesis by blast
qed

text \<open>
  C1 as stated fails. A range of 15,552,001 seconds (180 days and one second) is
  planned as two windows, not \<open>\<lceil>S / 90\<rceil> = 3\<close>; and for a range of 7,776,001 seconds
  the only window ends at 7,776,000, one second before the end of the range.
\<close>

theorem plan_chunks_claim_counterexample:
  "plan_chunks 0 15552001 = [(0, 7776000), (7776001, 15552001)]
   \<and> int (length (plan_chunks 0 15552001)) \<noteq> \<lceil>(real_of_int (15552001 - 0) / 86400) / 90\<rceil>
   \<and> plan_chunks 0 7776001 = [(0, 7776000)]
   \<and> snd (last (plan_chunks 0 7776001)) \<noteq> 7776001"
proof -
  have a: "plan_chunks 0 15552001 = [(0, 7776000), (7776001, 15552001)]"
    by (simp add: plan_chunks_def chunk_loop.simps three_months_def)
  have b: "plan_chunks 0 7776001 = [(0, 7776000)]"
    by (simp add: plan_chunks_def chunk_loop.simps three_months_def)
  have "(real_of_int (15552001 - 0) / 86400) / 90 = real_of_int 15552001 / real_of_int 7776000"
    by simp
  then have c: "\<lceil>(real_of_int (15552001 - 0) / 86400) / 90\<rceil> = 3"
    using ceiling_div_int[of 7776000 15552001] by simp
  from a b c show ?thesis by simp
qed

subsection \<open>Fetching with retries\<close>

lemma retry_loop_done: "retry_loop e url m m w = (Inr None, w)"
  by (simp add: retry_loop.simps)

text \<open>The three attempts of a fetch, unrolled by the outcome of each.\<close>

lemma retry3_first_ok:
  assumes "http_get e (nreq w) url = Response 200 text"
  shows "retry_loop e url 3 0 w = (Inr (Some text), w\<lparr>nreq := nreq w + 1\<rparr>)"
  using assms by (simp add: retry_loop.simps)

lemma retry3_step0:
  assumes "\<not> ok_response (http_get e (nreq w) url)"
  shows "retry_loop e url 3 0 w =
           retry_loop e url 3 1
             (w\<lparr>nreq := nreq w + 1,
                slept := slept w @ (if is_raise (http_get e (nreq w) url) then [1] else [])\<rparr>)"
proof (cases "http_get e (nreq w) url")
  case (Response status_code body)
  with assms show ?thesis by (subst retry_loop.simps) (simp add: Let_def numeral_2_eq_2)
next
  case (Raises x)
  then show ?thesis by (subst retry_loop.simps) (simp add: Let_def numeral_2_eq_2)
qed

lemma retry3_step1:
  assumes "\<not> ok_response (http_get e (nreq w) url)"
  shows "retry_loop e url 3 1 w =
           retry_loop e url 3 2
             (w\<lparr>nreq := nreq w + 1,
                slept := slept w @ (if is_raise (http_get e (nreq w) url) then [2] else [])\<rparr>)"
proof (cases "http_get e (nreq w) url")
  case (Response status_code body)
  with assms show ?thesis by (subst retry_loop.simps) (simp add: Let_def numeral_2_eq_2)
next
  case (Raises x)
  then show ?thesis by (subst retry_loop.simps) (simp add: Let_def numeral_2_eq_2)
qed

lemma retry3_ok:
  assumes "http_get e (nreq w) url = Response 200 text" and "attempt < 3"
  shows "retry_loop e url 3 attempt w = (Inr (Some text), w\<lparr>nreq := nreq w + 1\<rparr>)"
  using assms by (subst retry_loop.simps) (simp add: Let_def)

lemma retry3_last_fail:
  assumes "\<not> ok_response (http_get e (nreq w) url)"
  shows "retry_loop e url 3 2 w =
           ((case http_get e (nreq w) url of Raises x \<Rightarrow> Inl x | Response s t \<Rightarrow> Inr None),
            w\<lparr>nreq := nreq w + 1\<rparr>)"
proof (cases "http_get e (nreq w) url")
  case (Response status_code body)
  with assms show ?thesis
    using retry_loop_done[of e url 3] by (subst retry_loop.simps) (simp add: Let_def)
next
  case (Raises x)
  then show ?thesis by (subst retry_loop.simps) (simp add: Let_def)
qed

lemma ok_response_cases:
  "ok_response r \<Longrightarrow> \<exists>text. r = Response 200 text"
  by (cases r) simp_all

lemma retry3_nreq: "nreq (snd (retry_loop e url 3 0 w)) \<le> nreq w + 3"
proof (cases "ok_response (http_get e (nreq w) url)")
  case True
  then obtain body where "http_get e (nreq w) url = Response 200 body"
    using ok_response_cases by blast
  then show ?thesis by (simp add: retry3_first_ok)
next
  case f0: False
  let ?w1 = "w\<lparr>nreq := nreq w + 1,
                slept := slept w @ (if is_raise (http_get e (nreq w) url) then [1] else [])\<rparr>"
  have s0: "retry_loop e url 3 0 w = retry_loop e url 3 1 ?w1" by (rule retry3_step0[OF f0])
  show ?thesis
  proof (cases "ok_response (http_get e (nreq ?w1) url)")
    case True
    then obtain body where "http_get e (nreq ?w1) url = Response 200 body"
      using ok_response_cases by blast
    then have "retry_loop e url 3 1 ?w1 = (Inr (Some body), ?w1\<lparr>nreq := nreq ?w1 + 1\<rparr>)"
      by (intro retry3_ok) simp_all
    with s0 show ?thesis by simp
  next
    case f1: False
    let ?w2 = "?w1\<lparr>nreq := nreq ?w1 + 1,
                slept := slept ?w1 @ (if is_raise (http_get e (nreq ?w1) url) then [2] else [])\<rparr>"
    have s1: "retry_loop e url 3 1 ?w1 = retry_loop e url 3 2 ?w2" by (rule retry3_step1[OF f1])
    show ?thesis
    proof (cases "ok_response (http_get e (nreq ?w2) url)")
      case True
      then obtain body where "http_get e (nreq ?w2) url = Response 200 body"
        using ok_response_cases by blast
      then have "retry_loop e url 3 2 ?w2 = (Inr (Some body), ?w2\<lparr>nreq := nreq ?w2 + 1\<rparr>)"
        by (intro retry3_ok) simp_all
      with s0 s1 show ?thesis by simp
    next
      case f2: False
      from retry3_last_fail[OF f2] s0 s1 show ?thesis by simp
    qed
  qed
qed

text \<open>
  The seconds slept by a fetch: one after a first attempt that raised, two after a
  second attempt that raised; nothing after a response with a status other than 200,
  and nothing after the third attempt.
\<close>

lemma retry3_slept:
  "slept (snd (retry_loop e url 3 0 w)) =
     slept w
     @ (if is_raise (http_get e (nreq w) url) then [1] else [])
     @ (if \<not> ok_response (http_get e (nreq w) url) \<and> is_raise (http_get e (nreq w + 1) url)
        then [2] else [])"
proof (cases "ok_response (http_get e (nreq w) url)")
  case True
  then obtain body where r: "http_get e (nreq w) url = Response 200 body"
    using ok_response_cases by blast
  then show ?thesis by (simp add: retry3_first_ok)
next
  case f0: False
  let ?w1 = "w\<lparr>nreq := nreq w + 1,
                slept := slept w @ (if is_raise (http_get e (nreq w) url) then [1] else [])\<rparr>"
  have s0: "retry_loop e url 3 0 w = retry_loop e url 3 1 ?w1" by (rule retry3_step0[OF f0])
  show ?thesis
  proof (cases "ok_response (http_get e (nreq ?w1) url)")
    case True
    then obtain body where r: "http_get e (nreq ?w1) url = Response 200 body"
      using ok_response_cases by blast
    then have "retry_loop e url 3 1 ?w1 = (Inr (Some body), ?w1\<lparr>nreq := nreq ?w1 + 1\<rparr>)"
      by (intro retry3_ok) simp_all
    with s0 r f0 show ?thesis by simp
  next
    case f1: False
    let ?w2 = "?w1\<lparr>nreq := nreq ?w1 + 1,
                slept := slept ?w1 @ (if is_raise (http_get e (nreq ?w1) url) then [2] else [])\<rparr>"
    have s1: "retry_loop e url 3 1 ?w1 = retry_loop e url 3 2 ?w2" by (rule retry3_step1[OF f1])
    show ?thesis
    proof (cases "ok_response (http_get e (nreq ?w2) url)")
      case True
      then obtain body where "http_get e (nreq ?w2) url = Response 200 body"
        using ok_response_cases by blast
      then have "retry_loop e url 3 2 ?w2 = (Inr (Some body), ?w2\<lparr>nreq := nreq ?w2 + 1\<rparr>)"
        by (intro retry3_ok) simp_all
      with s0 s1 f0 show ?thesis by simp
    next
      case f2: False
      from retry3_last_fail[OF f2] s0 s1 f0 show ?thesis by simp
    qed
  qed
qed

lemma retry3_third_ok:
  assumes "\<not> ok_response (http_get e (nreq w) url)"
    and "\<not> ok_response (http_get e (nreq w + 1) url)"
    and "http_get e (nreq w + 2) url = Response 200 text"
  shows "fst (retry_loop e url 3 0 w) = Inr (Some text)"
proof -
  let ?w1 = "w\<lparr>nreq := nreq w + 1,
                slept := slept w @ (if is_raise (http_get e (nreq w) url) then [1] else [])\<rparr>"
  let ?w2 = "?w1\<lparr>nreq := nreq ?w1 + 1,
                slept := slept ?w1 @ (if is_raise (http_get e (nreq ?w1) url) then [2] else [])\<rparr>"
  have s0: "retry_loop e url 3 0 w = retry_loop e url 3 1 ?w1" by (rule retry3_step0[OF assms(1)])
  have s1: "retry_loop e url 3 1 ?w1 = retry_loop e url 3 2 ?w2"
    using assms(2) by (intro retry3_step1) simp
  have "retry_loop e url 3 2 ?w2 = (Inr (Some text), ?w2\<lparr>nreq := nreq ?w2 + 1\<rparr>)"
    using assms(3) by (intro retry3_ok) (simp_all add: numeral_2_eq_2)
  with s0 s1 show ?thesis by simp
qed

lemma retry3_all_fail:
  assumes "\<not> ok_response (http_get e (nreq w) url)"
    and "\<not> ok_response (http_get e (nreq w + 1) url)"
    and "\<not> ok_response (http_get e (nreq w + 2) url)"
  shows "fst (retry_loop e url 3 0 w) =
           (case http_get e (nreq w + 2) url of Raises x \<Rightarrow> Inl x | Response s t \<Rightarrow> Inr None)"
proof -
  let ?w1 = "w\<lparr>nreq := nreq w + 1,
                slept := slept w @ (if is_raise (http_get e (nreq w) url) then [1] else [])\<rparr>"
  let ?w2 = "?w1\<lparr>nreq := nreq ?w1 + 1,
                slept := slept ?w1 @ (if is_raise (http_get e (nreq ?w1) url) then [2] else [])\<rparr>"
  have s0: "retry_loop e url 3 0 w = retry_loop e url 3 1 ?w1" by (rule retry3_step0[OF assms(1)])
  have s1: "retry_loop e url 3 1 ?w1 = retry_loop e url 3 2 ?w2"
    using assms(2) by (intro retry3_step1) simp
  have n2: "nreq ?w2 = nreq w + 2" by simp
  have "\<not> ok_response (http_get e (nreq ?w2) url)" using assms(3) unfolding n2 .
  from retry3_last_fail[OF this] s0 s1 show ?thesis unfolding n2 by simp
qed

lemma fetch_chunk_body_all_fail:
  assumes "\<not> ok_response (attempt_response e w quote from_date to_date 0)"
    and "\<not> ok_response (attempt_response e w quote from_date to_date 1)"
    and "\<not> ok_response (attempt_response e w quote from_date to_date 2)"
  shows "fst (fetch_chunk_body e quote from_date to_date w) = None"
proof -
  let ?url = "(quote, from_date, to_date)"
  have a: "\<not> ok_response (http_get e (nreq w) ?url)"
    "\<not> ok_response (http_get e (nreq w + 1) ?url)"
    "\<not> ok_response (http_get e (nreq w + 2) ?url)"
    using assms by (simp_all add: attempt_response_def)
  obtain r w' where rw: "retry_loop e ?url 3 0 w = (r, w')" by (cases "retry_loop e ?url 3 0 w")
  with retry3_all_fail[OF a] have
    "r = (case http_get e (nreq w + 2) ?url of Raises x \<Rightarrow> Inl x | Response s t \<Rightarrow> Inr None)"
    by simp
  then show ?thesis using rw
    by (simp add: fetch_chunk_body_def fetch_data_with_retry_def split: response.splits sum.splits)
qed

text \<open>
  C2 (as amended). A fetch makes at most three requests and goes on to the next
  attempt after a transport failure as well as after a status other than 200. After
  an attempt \<open>i\<close> that failed by a transport exception and was not the last one it
  sleeps \<open>2^i\<close> seconds before the next attempt, and it never sleeps after the last
  attempt. A fetch that fails twice and gets status 200 at the third attempt returns
  that content; if both failures were transport failures it has slept 1 and then 2
  seconds, 3 in all. When all three attempts fail, \<^verbatim>\<open>_fetch_chunk\<close> catches what
  \<^verbatim>\<open>_fetch_data_with_retry\<close> raises and its caller gets \<^verbatim>\<open>None\<close>.
\<close>

theorem fetch_retry_backoff:
  "nreq (snd (fetch_data_with_retry e quote from_date to_date 3 w)) \<le> nreq w + 3
   \<and> length (slept (snd (fetch_data_with_retry e quote from_date to_date 3 w)))
        \<le> length (slept w) + 2
   \<and> (is_raise (attempt_response e w quote from_date to_date 0)
       \<longrightarrow> (\<exists>later. slept (snd (fetch_data_with_retry e quote from_date to_date 3 w))
                      = slept w @ [2 ^ 0] @ later))
   \<and> (\<not> ok_response (attempt_response e w quote from_date to_date 0)
       \<and> is_raise (attempt_response e w quote from_date to_date 1)
       \<longrightarrow> (\<exists>earlier. slept (snd (fetch_data_with_retry e quote from_date to_date 3 w))
                      = slept w @ earlier @ [2 ^ 1]))
   \<and> (\<not> ok_response (attempt_response e w quote from_date to_date 0)
       \<and> \<not> ok_response (attempt_response e w quote from_date to_date 1)
       \<and> attempt_response e w quote from_date to_date 2 = Response 200 text
       \<longrightarrow> fst (fetch_data_with_retry e quote from_date to_date 3 w) = Inr (Some text))
   \<and> (is_raise (attempt_response e w quote from_date to_date 0)
       \<and> is_raise (attempt_response e w quote from_date to_date 1)
       \<and> attempt_response e w quote from_date to_date 2 = Response 200 text
       \<longrightarrow> fst (fetch_data_with_retry e quote from_date to_date 3 w) = Inr (Some text)
           \<and> slept (snd (fetch_data_with_retry e quote from_date to_date 3 w)) = slept w @ [1, 2]
           \<and> sum_list (slept (snd (fetch_data_with_retry e quote from_date to_date 3 w)))
               = sum_list (slept w) + 3)
   \<and> (\<not> ok_response (attempt_response e w quote from_date to_date 0)
       \<and> \<not> ok_response (attempt_response e w quote from_date to_date 1)
       \<and> \<not> ok_response (attempt_response e w quote from_date to_date 2)
       \<longrightarrow> fst (fetch_chunk_body e quote from_date to_date w) = None)"
proof -
  let ?url = "(quote, from_date, to_date)"
  let ?r = "\<lambda>i. attempt_response e w quote from_date to_date i"
  let ?F = "fetch_data_with_retry e quote from_date to_date 3 w"
  have r: "?r 0 = http_get e (nreq w) ?url" "?r 1 = http_get e (nreq w + 1) ?url"
    "?r 2 = http_get e (nreq w + 2) ?url"
    by (simp_all add: attempt_response_def)
  have raise_not_ok: "\<And>x. is_raise x \<Longrightarrow> \<not> ok_response x"
    by (case_tac x) simp_all
  have c1: "nreq (snd ?F) \<le> nreq w + 3"
    unfolding fetch_data_with_retry_def by (rule retry3_nreq)
  have sl: "slept (snd ?F) =
       slept w @ (if is_raise (?r 0) then [1] else [])
       @ (if \<not> ok_response (?r 0) \<and> is_raise (?r 1) then [2] else [])"
    unfolding fetch_data_with_retry_def r using retry3_slept[of e ?url w] by simp
  have c2: "length (slept (snd ?F)) \<le> length (slept w) + 2"
    unfolding sl by simp
  have c3: "is_raise (?r 0) \<longrightarrow> (\<exists>later. slept (snd ?F) = slept w @ [2 ^ 0] @ later)"
    unfolding sl by simp
  have c4: "\<not> ok_response (?r 0) \<and> is_raise (?r 1)
       \<longrightarrow> (\<exists>earlier. slept (snd ?F) = slept w @ earlier @ [2 ^ 1])"
    unfolding sl by simp
  have c5: "\<not> ok_response (?r 0) \<and> \<not> ok_response (?r 1) \<and> ?r 2 = Response 200 text
       \<longrightarrow> fst ?F = Inr (Some text)"
    unfolding fetch_data_with_retry_def r using retry3_third_ok[of e w ?url "text"] by blast
  have c6: "is_raise (?r 0) \<and> is_raise (?r 1) \<and> ?r 2 = Response 200 text
       \<longrightarrow> fst ?F = Inr (Some text) \<and> slept (snd ?F) = slept w @ [1, 2]
           \<and> sum_list (slept (snd ?F)) = sum_list (slept w) + 3"
    using sl c5 raise_not_ok by auto
  have c7: "\<not> ok_response (?r 0) \<and> \<not> ok_response (?r 1) \<and> \<not> ok_response (?r 2)
       \<longrightarrow> fst (fetch_chunk_body e quote from_date to_date w) = None"
    using fetch_chunk_body_all_fail[of e w quote from_date to_date] by blast
  from c1 c2 c3 c4 c5 c6 c7 show ?thesis by blast
qed

theorem fetch_retry_backoff_witness:
  "is_raise (attempt_response
       (env_of [Raises (RequestException ''reset''), Raises (RequestException ''reset''),
                Response 200 ''<html>'']) world0 ''GBPINR=X'' 0 10 0)
   \<and> is_raise (attempt_response
       (env_of [Raises (RequestException ''reset''), Raises (RequestException ''reset''),
                Response 200 ''<html>'']) world0 ''GBPINR=X'' 0 10 1)
   \<and> attempt_response
       (env_of [Raises (RequestException ''reset''), Raises (RequestException ''reset''),
                Response 200 ''<html>'']) world0 ''GBPINR=X'' 0 10 2 = Response 200 ''<html>''
   \<and> fst (fetch_data_with_retry
       (env_of [Raises (RequestException ''reset''), Raises (RequestException ''reset''),
                Response 200 ''<html>'']) ''GBPINR=X'' 0 10 3 world0) = Inr (Some ''<html>'')
   \<and> slept (snd (fetch_data_with_retry
       (env_of [Raises (RequestException ''reset''), Raises (RequestException ''reset''),
                Response 200 ''<html>'']) ''GBPINR=X'' 0 10 3 world0)) = [1, 2]
   \<and> \<not> ok_response (attempt_response
       (env_of [Response 503 [], Response 503 [], Raises (RequestException ''reset'')])
       world0 ''GBPINR=X'' 0 10 0)
   \<and> \<not> ok_response (attempt_response
       (env_of [Response 503 [], Response 503 [], Raises (RequestException ''reset'')])
       world0 ''GBPINR=X'' 0 10 1)
   \<and> \<not> ok_response (attempt_response
       (env_of [Response 503 [], Response 503 [], Raises (RequestException ''reset'')])
       world0 ''GBPINR=X'' 0 10 2)
   \<and> fst (fetch_data_with_retry
       (env_of [Response 503 [], Response 503 [], Raises (RequestException ''reset'')])
       ''GBPINR=X'' 0 10 3 world0) = Inl (RequestException ''reset'')
   \<and> fst (fetch_chunk_body
       (env_of [Response 503 [], Response 503 [], Raises (RequestException ''reset'')])
       ''GBPINR=X'' 0 10 world0) = None"
proof -
  let ?A = "env_of [Raises (RequestException ''reset''), Raises (RequestException ''reset''),
                Response 200 ''<html>'']"
  let ?B = "env_of [Response 503 [], Response 503 [], Raises (RequestException ''reset'')]"
  have a: "is_raise (attempt_response ?A world0 ''GBPINR=X'' 0 10 0)"
    "is_raise (attempt_response ?A world0 ''GBPINR=X'' 0 10 1)"
    "attempt_response ?A world0 ''GBPINR=X'' 0 10 2 = Response 200 ''<html>''"
    by (simp_all add: attempt_response_def env_of_def world0_def)
  have b: "\<not> ok_response (attempt_response ?B world0 ''GBPINR=X'' 0 10 0)"
    "\<not> ok_response (attempt_response ?B world0 ''GBPINR=X'' 0 10 1)"
    "\<not> ok_response (attempt_response ?B world0 ''GBPINR=X'' 0 10 2)"
    by (simp_all add: attempt_response_def env_of_def world0_def)
  have s0: "slept world0 = []" by (simp add: world0_def)
  note ta = fetch_retry_backoff[of ?A "''GBPINR=X''" 0 10 world0 "''<html>''"]
  from ta a have "fst (fetch_data_with_retry ?A ''GBPINR=X'' 0 10 3 world0) = Inr (Some ''<html>'')
      \<and> slept (snd (fetch_data_with_retry ?A ''GBPINR=X'' 0 10 3 world0)) = slept world0 @ [1, 2]"
    by blast
  with s0 have ra: "fst (fetch_data_with_retry ?A ''GBPINR=X'' 0 10 3 world0) = Inr (Some ''<html>'')"
    "slept (snd (fetch_data_with_retry ?A ''GBPINR=X'' 0 10 3 world0)) = [1, 2]"
    by simp_all
  note tb = fetch_retry_backoff[of ?B "''GBPINR=X''" 0 10 world0 "[]"]
  from tb b have rb2: "fst (fetch_chunk_body ?B ''GBPINR=X'' 0 10 world0) = None"
    by blast
  have rb1: "fst (fetch_data_with_retry ?B ''GBPINR=X'' 0 10 3 world0) = Inl (RequestException ''reset'')"
    by (simp add: fetch_data_with_retry_def retry_loop.simps env_of_def world0_def)
  note rb = rb1 rb2
  from a b ra rb show ?thesis by blast
qed

text \<open>
  C2 as stated fails. Two responses with status 503 and then a response with status
  200: the content is returned after no wait at all (the claim says at least three
  seconds). Three responses with status 503: \<^verbatim>\<open>_fetch_data_with_retry\<close> returns
  \<^verbatim>\<open>None\<close> without raising, and so does \<^verbatim>\<open>_fetch_chunk\<close>.
\<close>

theorem fetch_retry_claim_counterexample:
  "fetch_data_with_retry (env_of [Response 503 [], Response 503 [], Response 200 ''<html>''])
       ''GBPINR=X'' 0 10 3 world0
     = (Inr (Some ''<html>''), world0\<lparr>nreq := 3\<rparr>)
   \<and> sum_list (slept (world0\<lparr>nreq := 3\<rparr>)) = 0
   \<and> fst (fetch_data_with_retry (env_of [Response 503 [], Response 503 [], Response 503 []])
       ''GBPINR=X'' 0 10 3 world0) = Inr None
   \<and> fst (fetch_chunk_body (env_of [Response 503 [], Response 503 [], Response 503 []])
       ''GBPINR=X'' 0 10 world0) = None"
  by (simp add: fetch_chunk_body_def fetch_data_with_retry_def retry_loop.simps env_of_def
      world0_def)

subsection \<open>The cache of \<^verbatim>\<open>_fetch_chunk\<close>\<close>

text \<open>A fetch changes the request counter and the sleep log only.\<close>

lemma retry_loop_frame:
  "cache (snd (retry_loop e url m a w)) = cache w
   \<and> table (snd (retry_loop e url m a w)) = table w
   \<and> nsession (snd (retry_loop e url m a w)) = nsession w
   \<and> ninstance (snd (retry_loop e url m a w)) = ninstance w"
proof (induction e url m a w rule: retry_loop.induct)
  case (1 e url m a w)
  show ?case
  proof (cases "a < m")
    case False
    then show ?thesis by (simp add: retry_loop.simps)
  next
    case True
    show ?thesis
    proof (cases "http_get e (nreq w) url")
      case (Response status_code body)
      show ?thesis
      proof (cases "status_code = 200")
        case True
        with \<open>a < m\<close> Response show ?thesis by (subst (1 2 3 4) retry_loop.simps) simp
      next
        case False
        with "1.IH"(1)[OF \<open>a < m\<close> refl Response False] \<open>a < m\<close> Response
        show ?thesis by (subst (1 2 3 4) retry_loop.simps) simp
      qed
    next
      case (Raises x)
      show ?thesis
      proof (cases "a = m - 1")
        case True
        with \<open>a < m\<close> Raises show ?thesis by (subst (1 2 3 4) retry_loop.simps) simp
      next
        case False
        with "1.IH"(2)[OF \<open>a < m\<close> refl Raises False] \<open>a < m\<close> Raises
        show ?thesis by (subst (1 2 3 4) retry_loop.simps) simp
      qed
    qed
  qed
qed

lemma fetch_chunk_body_frame:
  assumes "fetch_chunk_body e quote from_date to_date w = (v, w')"
  shows "cache w' = cache w" "table w' = table w" "nsession w' = nsession w"
    "ninstance w' = ninstance w"
proof -
  obtain r w2 where rw: "retry_loop e (quote, from_date, to_date) 3 0 w = (r, w2)"
    by (cases "retry_loop e (quote, from_date, to_date) 3 0 w")
  with assms have "w' = w2"
    by (simp add: fetch_chunk_body_def fetch_data_with_retry_def split: sum.splits)
  with retry_loop_frame[of e "(quote, from_date, to_date)" 3 0 w] rw
  show "cache w' = cache w" "table w' = table w" "nsession w' = nsession w"
    "ninstance w' = ninstance w"
    by simp_all
qed

lemma map_of_None_filter:
  "map_of xs k = None \<Longrightarrow> filter (\<lambda>kv. fst kv \<noteq> k) xs = xs"
  by (induction xs) (auto split: if_splits)

lemma map_of_None_take:
  "map_of xs k = None \<Longrightarrow> map_of (take n xs) k = None"
proof (induction xs arbitrary: n)
  case Nil
  then show ?case by simp
next
  case (Cons a xs)
  then show ?case by (cases n) (auto split: if_splits)
qed

text \<open>What one call of \<^verbatim>\<open>_fetch_chunk\<close> does to the cache.\<close>

lemma fetch_chunk_hit:
  assumes "map_of (cache w) (self, quote, from_date, to_date) = Some v"
  shows "fetch_chunk e self quote from_date to_date w =
           (v, w\<lparr>cache := ((self, quote, from_date, to_date), v)
                    # filter (\<lambda>kv. fst kv \<noteq> (self, quote, from_date, to_date)) (cache w)\<rparr>)"
  using assms by (simp add: fetch_chunk_def Let_def)

lemma fetch_chunk_miss:
  assumes "map_of (cache w) (self, quote, from_date, to_date) = None"
    and "fetch_chunk_body e quote from_date to_date w = (v, w')"
  shows "fetch_chunk e self quote from_date to_date w =
           (v, w'\<lparr>cache := take maxsize (((self, quote, from_date, to_date), v) # cache w)\<rparr>)"
  using assms fetch_chunk_body_frame(1)[OF assms(2)] by (simp add: fetch_chunk_def Let_def)

lemma fetch_chunk_head:
  assumes "fetch_chunk e self quote from_date to_date w = (v, w1)"
  shows "\<exists>rest. cache w1 = ((self, quote, from_date, to_date), v) # rest
           \<and> filter (\<lambda>kv. fst kv \<noteq> (self, quote, from_date, to_date)) rest = rest"
proof (cases "map_of (cache w) (self, quote, from_date, to_date)")
  case (Some u)
  from fetch_chunk_hit[OF Some, of e] assms show ?thesis by auto
next
  case None
  obtain u w' where b: "fetch_chunk_body e quote from_date to_date w = (u, w')"
    by (cases "fetch_chunk_body e quote from_date to_date w")
  have "0 < maxsize" by (simp add: maxsize_def)
  then obtain n where n: "maxsize = Suc n" by (cases maxsize) simp_all
  from fetch_chunk_miss[OF None b] assms
  have "v = u" "cache w1 = ((self, quote, from_date, to_date), v) # take n (cache w)"
    by (auto simp: n)
  moreover have "filter (\<lambda>kv. fst kv \<noteq> (self, quote, from_date, to_date)) (take n (cache w))
      = take n (cache w)"
    by (rule map_of_None_filter[OF map_of_None_take[OF None]])
  ultimately show ?thesis by simp
qed

text \<open>
  C8 (as amended). The cache of \<^verbatim>\<open>_fetch_chunk\<close>, keyed by the arguments (self, pair,
  from, to), holds at most 32 entries, ordered by their last use. A call whose
  arguments are cached is a hit: it returns the stored value, makes no request and
  moves the entry to the front, the other entries keeping their order. Any other call
  runs the fetch and puts its result in front, the \<^verbatim>\<open>None\<close> of a failed fetch as well;
  if that makes 33 entries the last one, which is the least recently used, is dropped.
  After any call, a second call with the same arguments returns the stored result and
  leaves the state as it is, whatever the network would answer now.
\<close>

theorem fetch_chunk_caches_every_result:
  assumes "fetch_chunk e self quote from_date to_date w = (v, w1)"
  shows "map_of (cache w1) (self, quote, from_date, to_date) = Some v
       \<and> fetch_chunk e' self quote from_date to_date w1 = (v, w1)
       \<and> nreq (snd (fetch_chunk e' self quote from_date to_date w1)) = nreq w1
       \<and> (length (cache w) \<le> maxsize \<longrightarrow> length (cache w1) \<le> maxsize)
       \<and> (map_of (cache w) (self, quote, from_date, to_date) = None \<longrightarrow>
            v = fst (fetch_chunk_body e quote from_date to_date w)
            \<and> cache w1 = take maxsize (((self, quote, from_date, to_date), v) # cache w))
       \<and> (\<forall>u. map_of (cache w) (self, quote, from_date, to_date) = Some u \<longrightarrow>
            v = u
            \<and> w1 = w\<lparr>cache := ((self, quote, from_date, to_date), u)
                       # filter (\<lambda>kv. fst kv \<noteq> (self, quote, from_date, to_date)) (cache w)\<rparr>)"
proof -
  let ?key = "(self, quote, from_date, to_date)"
  from fetch_chunk_head[OF assms] obtain rest where
    c: "cache w1 = (?key, v) # rest" and f: "filter (\<lambda>kv. fst kv \<noteq> ?key) rest = rest"
    by blast
  have stored: "map_of (cache w1) ?key = Some v" using c by simp
  have "w1\<lparr>cache := (?key, v) # filter (\<lambda>kv. fst kv \<noteq> ?key) (cache w1)\<rparr> = w1"
    using c f by simp
  with fetch_chunk_hit[OF stored, of e'] have again: "fetch_chunk e' self quote from_date to_date w1 = (v, w1)"
    by simp
  have hit: "\<forall>u. map_of (cache w) ?key = Some u \<longrightarrow>
      v = u \<and> w1 = w\<lparr>cache := (?key, u) # filter (\<lambda>kv. fst kv \<noteq> ?key) (cache w)\<rparr>"
  proof (intro allI impI)
    fix u assume Some: "map_of (cache w) ?key = Some u"
    from fetch_chunk_hit[OF Some, of e] assms
    show "v = u \<and> w1 = w\<lparr>cache := (?key, u) # filter (\<lambda>kv. fst kv \<noteq> ?key) (cache w)\<rparr>"
      by simp
  qed
  have bound: "length (cache w) \<le> maxsize \<longrightarrow> length (cache w1) \<le> maxsize"
  proof (cases "map_of (cache w) ?key")
    case (Some u)
    from hit Some
    have "cache w1 = (?key, u) # filter (\<lambda>kv. fst kv \<noteq> ?key) (cache w)" by simp
    moreover have "length (filter (\<lambda>kv. fst kv \<noteq> ?key) (cache w)) < length (cache w)"
      using Some by (intro length_filter_less[of "(?key, u)"]) (auto dest: map_of_SomeD)
    ultimately show ?thesis by simp
  next
    case None
    obtain u w' where b: "fetch_chunk_body e quote from_date to_date w = (u, w')"
      by (cases "fetch_chunk_body e quote from_date to_date w")
    from fetch_chunk_miss[OF None b] assms show ?thesis by auto
  qed
  have miss: "map_of (cache w) ?key = None \<longrightarrow>
      v = fst (fetch_chunk_body e quote from_date to_date w)
      \<and> cache w1 = take maxsize ((?key, v) # cache w)"
  proof
    assume None: "map_of (cache w) ?key = None"
    obtain u w' where b: "fetch_chunk_body e quote from_date to_date w = (u, w')"
      by (cases "fetch_chunk_body e quote from_date to_date w")
    from fetch_chunk_miss[OF None b] assms b
    show "v = fst (fetch_chunk_body e quote from_date to_date w)
        \<and> cache w1 = take maxsize ((?key, v) # cache w)" by auto
  qed
  from stored again bound miss hit show ?thesis by simp
qed

text \<open>
  A full cache with the keys \<open>(0, GBPINR=X, i, i + 1)\<close> for \<open>i\<close> from 0 to 31, the
  last one least recently used. A call for the last key is a hit and moves it to the
  front; the call for a new key that follows drops the key with \<open>i = 30\<close>, now the
  least recently used one, and keeps the key with \<open>i = 31\<close>.
\<close>

theorem fetch_chunk_caches_every_result_witness:
  "fetch_chunk (env_of []) 0 ''GBPINR=X'' 31 32
       (world0\<lparr>cache := map (\<lambda>i. ((0, ''GBPINR=X'', int i, int i + 1), Some ''x'')) [0..<32]\<rparr>)
     = (Some ''x'',
        world0\<lparr>cache := ((0, ''GBPINR=X'', 31, 32), Some ''x'')
            # map (\<lambda>i. ((0, ''GBPINR=X'', int i, int i + 1), Some ''x'')) [0..<31]\<rparr>)
   \<and> map_of (map (\<lambda>i. ((0 :: nat, ''GBPINR=X'', int i, int i + 1), Some ''x'')) [0..<32])
        (0, ''GBPINR=X'', 31, 32) = Some (Some ''x'')
   \<and> length (map (\<lambda>i. ((0 :: nat, ''GBPINR=X'', int i, int i + 1), Some ''x'')) [0..<32]) \<le> maxsize
   \<and> fetch_chunk (env_of [Response 200 ''<html>'']) 0 ''GBPINR=X'' 100 101
       (world0\<lparr>cache := ((0, ''GBPINR=X'', 31, 32), Some ''x'')
            # map (\<lambda>i. ((0, ''GBPINR=X'', int i, int i + 1), Some ''x'')) [0..<31]\<rparr>)
     = (Some ''<html>'',
        world0\<lparr>nreq := 1,
               cache := ((0, ''GBPINR=X'', 100, 101), Some ''<html>'')
            # ((0, ''GBPINR=X'', 31, 32), Some ''x'')
            # map (\<lambda>i. ((0, ''GBPINR=X'', int i, int i + 1), Some ''x'')) [0..<30]\<rparr>)
   \<and> map_of (((0 :: nat, ''GBPINR=X'', 31 :: int, 32 :: int), Some ''x'')
            # map (\<lambda>i. ((0, ''GBPINR=X'', int i, int i + 1), Some ''x'')) [0..<31])
        (0, ''GBPINR=X'', 100, 101) = None
   \<and> fetch_chunk (env_of []) 0 ''GBPINR=X'' 100 101
       (world0\<lparr>nreq := 1,
               cache := ((0, ''GBPINR=X'', 100, 101), Some ''<html>'')
            # ((0, ''GBPINR=X'', 31, 32), Some ''x'')
            # map (\<lambda>i. ((0, ''GBPINR=X'', int i, int i + 1), Some ''x'')) [0..<30]\<rparr>)
     = (Some ''<html>'',
        world0\<lparr>nreq := 1,
               cache := ((0, ''GBPINR=X'', 100, 101), Some ''<html>'')
            # ((0, ''GBPINR=X'', 31, 32), Some ''x'')
            # map (\<lambda>i. ((0, ''GBPINR=X'', int i, int i + 1), Some ''x'')) [0..<30]\<rparr>)"
proof -
  let ?full = "map (\<lambda>i. ((0 :: nat, ''GBPINR=X'', int i, int i + 1), Some ''x'')) [0..<32]"
  let ?moved = "((0 :: nat, ''GBPINR=X'', 31 :: int, 32 :: int), Some ''x'')
      # map (\<lambda>i. ((0, ''GBPINR=X'', int i, int i + 1), Some ''x'')) [0..<31]"
  let ?last = "((0 :: nat, ''GBPINR=X'', 100 :: int, 101 :: int), Some ''<html>'')
      # ((0, ''GBPINR=X'', 31, 32), Some ''x'')
      # map (\<lambda>i. ((0, ''GBPINR=X'', int i, int i + 1), Some ''x'')) [0..<30]"
  have m1: "map_of ?full (0, ''GBPINR=X'', 31, 32) = Some (Some ''x'')"
    by (simp add: upt_rec[of _ "numeral _"])
  have f1: "filter (\<lambda>kv. fst kv \<noteq> (0, ''GBPINR=X'', 31, 32)) ?full
      = map (\<lambda>i. ((0 :: nat, ''GBPINR=X'', int i, int i + 1), Some ''x'')) [0..<31]"
    by (simp add: upt_rec[of _ "numeral _"])
  have l1: "length ?full \<le> maxsize" by (simp add: maxsize_def)
  have h1: "fetch_chunk (env_of []) 0 ''GBPINR=X'' 31 32 (world0\<lparr>cache := ?full\<rparr>)
      = (Some ''x'', world0\<lparr>cache := ?moved\<rparr>)"
    using m1 f1 by (simp add: fetch_chunk_def Let_def world0_def)
  have m2: "map_of ?moved (0, ''GBPINR=X'', 100, 101) = None"
    by (simp add: upt_rec[of _ "numeral _"])
  have t2: "take maxsize (((0 :: nat, ''GBPINR=X'', 100 :: int, 101 :: int), Some ''<html>'') # ?moved) = ?last"
    by (simp add: maxsize_def upt_rec[of _ "numeral _"])
  have b2: "fetch_chunk_body (env_of [Response 200 ''<html>'']) ''GBPINR=X'' 100 101
        (world0\<lparr>cache := ?moved\<rparr>)
      = (Some ''<html>'', world0\<lparr>nreq := 1, cache := ?moved\<rparr>)"
    by (simp add: fetch_chunk_body_def fetch_data_with_retry_def retry_loop.simps env_of_def
        world0_def)
  have h2: "fetch_chunk (env_of [Response 200 ''<html>'']) 0 ''GBPINR=X'' 100 101
        (world0\<lparr>cache := ?moved\<rparr>)
      = (Some ''<html>'', world0\<lparr>nreq := 1, cache := ?last\<rparr>)"
    using m2 b2 t2 by (simp add: fetch_chunk_def Let_def world0_def)
  from fetch_chunk_caches_every_result[OF h2, of "env_of []"]
  have again: "fetch_chunk (env_of []) 0 ''GBPINR=X'' 100 101 (world0\<lparr>nreq := 1, cache := ?last\<rparr>)
      = (Some ''<html>'', world0\<lparr>nreq := 1, cache := ?last\<rparr>)"
    by blast
  from h1 m1 l1 h2 m2 again show ?thesis by blast
qed

text \<open>
  C8 as stated fails. A fetch whose three attempts all time out returns \<^verbatim>\<open>None\<close> and
  that \<^verbatim>\<open>None\<close> is stored; the next call with the same arguments returns it from the
  cache and makes no request, although the next request would be answered with
  status 200.
\<close>

theorem fetch_chunk_claim_counterexample:
  "fetch_chunk (env_of [Raises (RequestException ''timed out''), Raises (RequestException ''timed out''),
                   Raises (RequestException ''timed out''), Response 200 ''<html>''])
        0 ''GBPINR=X'' 0 10 world0
     = (None, world0\<lparr>nreq := 3, slept := [1, 2], cache := [((0, ''GBPINR=X'', 0, 10), None)]\<rparr>)
   \<and> http_get (env_of [Raises (RequestException ''timed out''), Raises (RequestException ''timed out''),
                   Raises (RequestException ''timed out''), Response 200 ''<html>''])
        3 (''GBPINR=X'', 0, 10) = Response 200 ''<html>''
   \<and> fetch_chunk (env_of [Raises (RequestException ''timed out''), Raises (RequestException ''timed out''),
                   Raises (RequestException ''timed out''), Response 200 ''<html>''])
        0 ''GBPINR=X'' 0 10
        (world0\<lparr>nreq := 3, slept := [1, 2], cache := [((0, ''GBPINR=X'', 0, 10), None)]\<rparr>)
     = (None, world0\<lparr>nreq := 3, slept := [1, 2], cache := [((0, ''GBPINR=X'', 0, 10), None)]\<rparr>)"
  by (simp add: fetch_chunk_def fetch_chunk_body_def fetch_data_with_retry_def
      retry_loop.simps env_of_def world0_def maxsize_def Let_def)

subsection \<open>Parsing\<close>

lemma bind_exn_Inl [simp]: "bind_exn (Inl e) f = Inl e"
  by (simp add: bind_exn_def)

lemma bind_exn_Inr [simp]: "bind_exn (Inr x) f = f x"
  by (simp add: bind_exn_def)

lemma strptime_raises: "strptime lib s = Inl e \<Longrightarrow> is_ValueError_or_IndexError e"
  by (auto simp: strptime_def split: option.splits)

lemma to_float_raises: "to_float lib s = Inl e \<Longrightarrow> is_ValueError_or_IndexError e"
  by (auto simp: to_float_def split: option.splits)

lemma py_int_raises: "py_int s = Inl e \<Longrightarrow> is_ValueError_or_IndexError e"
  by (auto simp: py_int_def Let_def split: if_splits)

text \<open>Whatever the \<^verbatim>\<open>try\<close> block raises is caught by the handler of the loop.\<close>

lemma try_row_raises:
  assumes "try_row lib pair cols = Inl e"
  shows "is_ValueError_or_IndexError e"
proof (cases "strptime lib (strip (cols ! 0))")
  case (Inl x)
  with assms strptime_raises[OF Inl] show ?thesis
    unfolding try_row_def Let_def by (auto split: if_splits)
next
  case (Inr ymd)
  let ?vol = "if strip (cols ! 6) \<noteq> ''-'' then py_int (remove_commas (cols ! 6)) else Inr 0"
  from assms Inr show ?thesis
    unfolding try_row_def Let_def
    by (cases "to_float lib (remove_commas (cols ! 1))";
        cases "to_float lib (remove_commas (cols ! 2))";
        cases "to_float lib (remove_commas (cols ! 3))";
        cases "to_float lib (remove_commas (cols ! 4))";
        cases "to_float lib (remove_commas (cols ! 5))";
        cases ?vol)
       (auto split: if_splits dest: to_float_raises py_int_raises)
qed

lemma rows_loop_skip:
  assumes "length cols \<ge> 7" and "\<And>d. try_row lib pair cols \<noteq> Inr (Some d)"
  shows "rows_loop lib pair (cols # rows) data = rows_loop lib pair rows data"
proof (cases "try_row lib pair cols")
  case (Inl e)
  with try_row_raises[OF Inl] assms(1) show ?thesis by simp
next
  case (Inr r)
  with assms show ?thesis by (cases r) auto
qed


lemma rows_loop_step:
  "rows_loop lib pair (cols # rows) data =
     rows_loop lib pair rows (data @ row_records lib pair cols)"
proof (cases "length cols \<ge> 7")
  case False
  then show ?thesis by (simp add: row_records_def)
next
  case True
  show ?thesis
  proof (cases "\<exists>d. try_row lib pair cols = Inr (Some d)")
    case True
    then obtain d where d: "try_row lib pair cols = Inr (Some d)" by blast
    with \<open>length cols \<ge> 7\<close> show ?thesis by (simp add: row_records_def)
  next
    case False
    then have n: "\<And>d. try_row lib pair cols \<noteq> Inr (Some d)" by blast
    have "row_records lib pair cols = []"
    proof (cases "try_row lib pair cols")
      case (Inl e)
      then show ?thesis by (simp add: row_records_def)
    next
      case (Inr r)
      with n show ?thesis by (cases r) (auto simp: row_records_def)
    qed
    with rows_loop_skip[OF True n] show ?thesis by simp
  qed
qed

text \<open>The loop never raises: it returns the records of the rows, in order.\<close>

lemma rows_loop_records:
  "rows_loop lib pair rows data = Inr (data @ concat (map (row_records lib pair) rows))"
proof (induction rows arbitrary: data)
  case Nil
  show ?case by simp
next
  case (Cons cols rows)
  show ?case by (simp only: rows_loop_step Cons.IH) simp
qed

lemma parse_exchange_data_records:
  "parse_exchange_data lib html pair =
     Inr (if html = [] \<or> concat (map (row_records lib pair) (soup_rows lib html)) = []
          then None
          else Some (concat (map (row_records lib pair) (soup_rows lib html))))"
  by (auto simp: parse_exchange_data_def Let_def rows_loop_records)














text \<open>
  C7 (as amended). \<^verbatim>\<open>parse_exchange_data\<close> returns \<^verbatim>\<open>None\<close> when the content has no row
  with at least seven cells, and it returns the same \<^verbatim>\<open>None\<close> when there are such rows
  but none of them passes the checks: the result does not tell the two cases apart.
\<close>

theorem parse_none_in_both_cases:
  "((\<forall>cols \<in> set (soup_rows lib html). length cols < 7)
      \<longrightarrow> parse_exchange_data lib html pair = Inr None)
   \<and> ((\<exists>cols \<in> set (soup_rows lib html). length cols \<ge> 7)
       \<and> (\<forall>cols \<in> set (soup_rows lib html).
             length cols \<ge> 7 \<longrightarrow> (\<forall>d. try_row lib pair cols \<noteq> Inr (Some d)))
      \<longrightarrow> parse_exchange_data lib html pair = Inr None)"
proof -
  have none: "(\<forall>cols \<in> set (soup_rows lib html). row_records lib pair cols = [])
      \<Longrightarrow> parse_exchange_data lib html pair = Inr None"
    by (simp add: parse_exchange_data_records)
  have short: "\<And>cols. length cols < 7 \<Longrightarrow> row_records lib pair cols = []"
    by (simp add: row_records_def)
  have failing: "\<And>cols. (\<forall>d. try_row lib pair cols \<noteq> Inr (Some d)) \<Longrightarrow> row_records lib pair cols = []"
  proof -
    fix cols
    assume n: "\<forall>d. try_row lib pair cols \<noteq> Inr (Some d)"
    show "row_records lib pair cols = []"
    proof (cases "try_row lib pair cols")
      case (Inl e)
      then show ?thesis by (simp add: row_records_def)
    next
      case (Inr r)
      with n show ?thesis by (cases r) (auto simp: row_records_def)
    qed
  qed
  have a: "(\<forall>cols \<in> set (soup_rows lib html). length cols < 7)
      \<longrightarrow> parse_exchange_data lib html pair = Inr None"
    using none short by blast
  have b: "(\<exists>cols \<in> set (soup_rows lib html). length cols \<ge> 7)
       \<and> (\<forall>cols \<in> set (soup_rows lib html).
             length cols \<ge> 7 \<longrightarrow> (\<forall>d. try_row lib pair cols \<noteq> Inr (Some d)))
      \<longrightarrow> parse_exchange_data lib html pair = Inr None"
  proof
    assume h: "(\<exists>cols \<in> set (soup_rows lib html). length cols \<ge> 7)
       \<and> (\<forall>cols \<in> set (soup_rows lib html).
             length cols \<ge> 7 \<longrightarrow> (\<forall>d. try_row lib pair cols \<noteq> Inr (Some d)))"
    have "\<forall>cols \<in> set (soup_rows lib html). row_records lib pair cols = []"
    proof
      fix cols
      assume m: "cols \<in> set (soup_rows lib html)"
      show "row_records lib pair cols = []"
      proof (cases "length cols \<ge> 7")
        case True
        with h m have "\<forall>d. try_row lib pair cols \<noteq> Inr (Some d)" by blast
        then show ?thesis by (rule failing)
      next
        case False
        then show ?thesis by (simp add: short)
      qed
    qed
    then show "parse_exchange_data lib html pair = Inr None" by (rule none)
  qed
  from a b show ?thesis by blast
qed

theorem parse_none_in_both_cases_witness:
  "soup_rows (sample_lib sample_soup) html_no_rows = []
   \<and> parse_exchange_data (sample_lib sample_soup) html_no_rows ''GBPINR=X'' = Inr None
   \<and> soup_rows (sample_lib sample_soup) html_dash_close
        = [[''Jan 5, 2024'', ''1'', ''2'', ''3'', ''-'', ''5'', ''7'']]
   \<and> try_row (sample_lib sample_soup) ''GBPINR=X''
        [''Jan 5, 2024'', ''1'', ''2'', ''3'', ''-'', ''5'', ''7''] = Inr None
   \<and> parse_exchange_data (sample_lib sample_soup) html_dash_close ''GBPINR=X'' = Inr None"
proof -
  let ?L = "sample_lib sample_soup"
  have r0: "soup_rows ?L html_no_rows = []" by code_simp
  have r1: "soup_rows ?L html_dash_close = [[''Jan 5, 2024'', ''1'', ''2'', ''3'', ''-'', ''5'', ''7'']]"
    by code_simp
  have t1: "try_row ?L ''GBPINR=X'' [''Jan 5, 2024'', ''1'', ''2'', ''3'', ''-'', ''5'', ''7''] = Inr None"
    by code_simp
  have h0: "\<forall>cols \<in> set (soup_rows ?L html_no_rows). length cols < 7"
    unfolding r0 by simp
  have h1: "(\<exists>cols \<in> set (soup_rows ?L html_dash_close). length cols \<ge> 7)
       \<and> (\<forall>cols \<in> set (soup_rows ?L html_dash_close).
             length cols \<ge> 7 \<longrightarrow> (\<forall>d. try_row ?L ''GBPINR=X'' cols \<noteq> Inr (Some d)))"
    unfolding r1 using t1 by simp
  from parse_none_in_both_cases[of ?L html_no_rows "''GBPINR=X''"] h0
  have c0: "parse_exchange_data ?L html_no_rows ''GBPINR=X'' = Inr None" by blast
  from parse_none_in_both_cases[of ?L html_dash_close "''GBPINR=X''"] h1
  have c1: "parse_exchange_data ?L html_dash_close ''GBPINR=X'' = Inr None" by blast
  from r0 c0 r1 t1 c1 show ?thesis by blast
qed

text \<open>
  C7 as stated fails: a page without rows and a page whose only row has seven cells
  and the close \<^verbatim>\<open>-\<close> give the same result, \<^verbatim>\<open>None\<close>.
\<close>

theorem parse_distinct_outcomes_counterexample:
  "sample_soup html_no_rows = []
   \<and> sample_soup html_dash_close = [[''Jan 5, 2024'', ''1'', ''2'', ''3'', ''-'', ''5'', ''7'']]
   \<and> parse_exchange_data (sample_lib sample_soup) html_no_rows ''GBPINR=X''
     = parse_exchange_data (sample_lib sample_soup) html_dash_close ''GBPINR=X''
   \<and> parse_exchange_data (sample_lib sample_soup) html_dash_close ''GBPINR=X''
     = (Inr None :: exn + float_value rate_data list option)"
  by code_simp




subsection \<open>The table\<close>

lemma key_of_sql_values [simp]: "key_of (sql_values lib d) = key_of d"
  by (simp add: key_of_def sql_values_def)

lemma key_of_update [simp]: "key_of (on_conflict_do_update d r) = key_of d"
  by (simp add: key_of_def on_conflict_do_update_def)

lemma key_of_insert [simp]: "key_of (insert_values now d tbl) = key_of d"
  by (simp add: key_of_def insert_values_def)

lemma update_update [simp]:
  "on_conflict_do_update d' (on_conflict_do_update d r) = on_conflict_do_update d' r"
  by (simp add: on_conflict_do_update_def)

lemma update_insert [simp]:
  "on_conflict_do_update d (insert_values now d tbl) = insert_values now d tbl"
  by (simp add: on_conflict_do_update_def insert_values_def)

lemma update_frame [simp]:
  "row_id (on_conflict_do_update d r) = row_id r"
  "created_at (on_conflict_do_update d r) = created_at r"
  by (simp_all add: on_conflict_do_update_def)

lemma values_of_update [simp]: "values_of (on_conflict_do_update d r) = d"
  by (simp add: values_of_def on_conflict_do_update_def)

lemma values_of_insert [simp]: "values_of (insert_values now d tbl) = d"
  by (simp add: values_of_def insert_values_def)

lemma created_at_insert [simp]: "created_at (insert_values now d tbl) = now"
  by (simp add: insert_values_def)

lemma sql_values_no_nan: "\<not> has_nan lib d \<Longrightarrow> sql_values lib d = all_present d"
  by (simp add: has_nan_def sql_values_def all_present_def sql_float_def)

text \<open>An upsert on a key that is in the table rewrites that row in place.\<close>

lemma upsert_present:
  assumes "key_of d \<in> key_of ` set tbl"
  shows "upsert now d tbl =
           map (\<lambda>r. if key_of r = key_of d then on_conflict_do_update d r else r) tbl"
  using assms by (auto simp: upsert_def)

lemma upsert_absent:
  assumes "key_of d \<notin> key_of ` set tbl"
  shows "upsert now d tbl = tbl @ [insert_values now d tbl]"
proof -
  have "\<not> (\<exists>r \<in> set tbl. key_of r = key_of d)" using assms by (metis imageI)
  then show ?thesis by (simp add: upsert_def)
qed

lemma upsert_keys:
  "map key_of (upsert now d tbl) =
     map key_of tbl @ (if key_of d \<in> key_of ` set tbl then [] else [key_of d])"
proof (cases "key_of d \<in> key_of ` set tbl")
  case True
  have "map key_of (map (\<lambda>r. if key_of r = key_of d then on_conflict_do_update d r else r) tbl)
      = map key_of tbl"
    by (induction tbl) auto
  with True show ?thesis by (simp add: upsert_present)
next
  case False
  then show ?thesis by (simp add: upsert_absent)
qed

lemma upsert_distinct:
  assumes "distinct (map key_of tbl)"
  shows "distinct (map key_of (upsert now d tbl))"
  using assms by (auto simp: upsert_keys)

lemma upsert_key_set: "key_of ` set (upsert now d tbl) = insert (key_of d) (key_of ` set tbl)"
proof -
  have "set (map key_of (upsert now d tbl)) = insert (key_of d) (set (map key_of tbl))"
    unfolding upsert_keys by auto
  then show ?thesis by simp
qed

lemma upsert_length:
  "length (upsert now d tbl) = (if key_of d \<in> key_of ` set tbl then length tbl else Suc (length tbl))"
  by (simp add: upsert_present upsert_absent)

text \<open>The row stored under a key, by \<^verbatim>\<open>SELECT\<close>.\<close>

lemma stored_None: "stored tbl k = None \<longleftrightarrow> k \<notin> key_of ` set tbl"
  by (auto simp: stored_def find_None_iff)

lemma stored_key: "stored tbl k = Some r \<Longrightarrow> key_of r = k \<and> r \<in> set tbl"
proof (induction tbl)
  case Nil
  then show ?case by (simp add: stored_def)
next
  case (Cons a tbl)
  then show ?case by (auto simp: stored_def split: if_splits)
qed

lemma find_map_key:
  assumes "\<And>r. key_of (u r) = key_of r"
  shows "find (\<lambda>r. key_of r = k) (map u tbl) = map_option u (find (\<lambda>r. key_of r = k) tbl)"
  by (induction tbl) (auto simp: assms)

lemma find_append_cases:
  "find P (xs @ ys) = (case find P xs of None \<Rightarrow> find P ys | Some x \<Rightarrow> Some x)"
  by (induction xs) auto

text \<open>
  What one statement does to the row stored under a key: under the key of the
  statement the row is updated or inserted, under any other key nothing changes.
\<close>

lemma stored_upsert:
  "stored (upsert now d tbl) k =
     (if k = key_of d
      then Some (case stored tbl k of
                   Some r0 \<Rightarrow> on_conflict_do_update d r0
                 | None \<Rightarrow> insert_values now d tbl)
      else stored tbl k)"
proof (cases "key_of d \<in> key_of ` set tbl")
  case True
  let ?u = "\<lambda>r. if key_of r = key_of d then on_conflict_do_update d r else r"
  have u: "\<And>r. key_of (?u r) = key_of r" by simp
  have "stored (upsert now d tbl) k = map_option ?u (stored tbl k)"
    unfolding upsert_present[OF True] stored_def by (rule find_map_key[OF u])
  moreover from True obtain r0 where "stored tbl (key_of d) = Some r0"
    by (cases "stored tbl (key_of d)") (auto simp: stored_None)
  ultimately show ?thesis
    by (cases "stored tbl k") (auto dest: stored_key)
next
  case False
  then have n: "stored tbl (key_of d) = None" by (simp add: stored_None)
  show ?thesis
    unfolding upsert_absent[OF False] stored_def find_append_cases
    using n by (auto simp: stored_def split: option.splits)
qed

subsection \<open>A batch of statements\<close>

lemma latest_Cons:
  "latest (d # ds) k =
     (case latest ds k of Some x \<Rightarrow> Some x | None \<Rightarrow> if key_of d = k then Some d else None)"
  by (simp add: latest_def find_append_cases split: option.splits)

lemma latest_None: "latest ds k = None \<longleftrightarrow> k \<notin> key_of ` set ds"
  by (auto simp: latest_def find_None_iff)

lemma find_Some_mem: "find P xs = Some x \<Longrightarrow> P x \<and> x \<in> set xs"
  by (induction xs) (auto split: if_splits)

lemma latest_key: "latest ds k = Some d \<Longrightarrow> key_of d = k \<and> d \<in> set ds"
  using find_Some_mem[of "\<lambda>d. key_of d = k" "rev ds" d] by (simp add: latest_def)

lemma first_index_Cons:
  "first_index (d # ds) k = (if key_of d = k then 0 else Suc (first_index ds k))"
  by (simp add: first_index_def)

text \<open>A key that the batch does not mention keeps its row, or stays absent.\<close>

lemma apply_all_stored_other:
  "latest ds k = None \<Longrightarrow> stored (apply_all lib s i ds tbl) k = stored tbl k"
proof (induction ds arbitrary: i tbl)
  case Nil
  show ?case by simp
next
  case (Cons d ds)
  from Cons.prems have n: "latest ds k = None" and ne: "k \<noteq> key_of d"
    by (auto simp: latest_Cons split: option.splits if_splits)
  from Cons.IH[OF n] ne show ?case by (simp add: stored_upsert)
qed

text \<open>A key that the batch mentions holds the last values given for it.\<close>

lemma apply_all_stored_latest:
  "latest ds k = Some d \<Longrightarrow>
     \<exists>r. stored (apply_all lib s i ds tbl) k = Some r \<and> values_of r = sql_values lib d"
proof (induction ds arbitrary: i tbl)
  case Nil
  then show ?case by (simp add: latest_def)
next
  case (Cons d0 ds)
  show ?case
  proof (cases "latest ds k")
    case (Some x)
    with Cons.prems have "x = d" by (simp add: latest_Cons)
    with Cons.IH[of "Suc i" "upsert (utcnow s i) (sql_values lib d0) tbl"] Some
    show ?thesis by simp
  next
    case None
    with Cons.prems have k: "key_of d0 = k" and e: "d = d0"
      by (auto simp: latest_Cons split: if_splits)
    from apply_all_stored_other[OF None]
    have "stored (apply_all lib s (Suc i) ds (upsert (utcnow s i) (sql_values lib d0) tbl)) k
        = stored (upsert (utcnow s i) (sql_values lib d0) tbl) k" .
    with k e show ?thesis by (auto simp: stored_upsert split: option.splits)
  qed
qed

text \<open>A row that was there keeps its \<^verbatim>\<open>created_at\<close> and its \<^verbatim>\<open>id\<close>.\<close>

lemma apply_all_stored_kept:
  "stored tbl k = Some r0 \<Longrightarrow>
     \<exists>r. stored (apply_all lib s i ds tbl) k = Some r
        \<and> created_at r = created_at r0 \<and> row_id r = row_id r0"
proof (induction ds arbitrary: i tbl r0)
  case Nil
  then show ?case by simp
next
  case (Cons d ds)
  let ?t = "upsert (utcnow s i) (sql_values lib d) tbl"
  let ?r1 = "if k = key_of d then on_conflict_do_update (sql_values lib d) r0 else r0"
  from Cons.prems have r1: "stored ?t k = Some ?r1"
    by (auto simp: stored_upsert)
  have f: "created_at ?r1 = created_at r0" "row_id ?r1 = row_id r0" by simp_all
  from Cons.IH[OF r1, of "Suc i"] f show ?case by simp
qed

text \<open>A row that the batch inserts has the time of the first statement for its key.\<close>

lemma apply_all_stored_new:
  "stored tbl k = None \<Longrightarrow> latest ds k = Some d \<Longrightarrow>
     \<exists>r. stored (apply_all lib s i ds tbl) k = Some r
        \<and> created_at r = utcnow s (i + first_index ds k)"
proof (induction ds arbitrary: i tbl d)
  case Nil
  then show ?case by (simp add: latest_def)
next
  case (Cons d0 ds)
  let ?t = "upsert (utcnow s i) (sql_values lib d0) tbl"
  show ?case
  proof (cases "key_of d0 = k")
    case True
    with Cons.prems(1) have "stored ?t k = Some (insert_values (utcnow s i) (sql_values lib d0) tbl)"
      by (simp add: stored_upsert)
    from apply_all_stored_kept[OF this, of lib s "Suc i" ds] True
    show ?thesis by (auto simp: first_index_Cons)
  next
    case False
    with Cons.prems(1) have n: "stored ?t k = None" by (simp add: stored_upsert)
    from False Cons.prems(2) have "latest ds k = Some d"
      by (auto simp: latest_Cons split: option.splits if_splits)
    from Cons.IH[OF n this, of "Suc i"] False show ?thesis by (simp add: first_index_Cons)
  qed
qed

lemma apply_all_distinct:
  "distinct (map key_of tbl) \<Longrightarrow> distinct (map key_of (apply_all lib s i ds tbl))"
  by (induction ds arbitrary: i tbl) (auto intro: upsert_distinct)

lemma apply_all_key_set:
  "key_of ` set (apply_all lib s i ds tbl) = key_of ` set ds \<union> key_of ` set tbl"
  by (induction ds arbitrary: i tbl) (auto simp: upsert_key_set)

lemma apply_all_length:
  "key_of ` set ds \<subseteq> key_of ` set tbl \<Longrightarrow> length (apply_all lib s i ds tbl) = length tbl"
proof (induction ds arbitrary: i tbl)
  case Nil
  show ?case by simp
next
  case (Cons d ds)
  let ?t = "upsert (utcnow s i) (sql_values lib d) tbl"
  from Cons.prems have p: "key_of (sql_values lib d) \<in> key_of ` set tbl" by simp
  have "key_of ` set ds \<subseteq> key_of ` set ?t" using Cons.prems by (auto simp: upsert_key_set)
  from Cons.IH[OF this, of "Suc i"] p show ?case by (simp add: upsert_length)
qed

text \<open>A batch whose keys are all in the table rewrites rows in place.\<close>

lemma apply_all_present:
  "key_of ` set ds \<subseteq> key_of ` set tbl \<Longrightarrow>
   apply_all lib s i ds tbl =
     map (\<lambda>r. case latest ds (key_of r) of None \<Rightarrow> r
               | Some d \<Rightarrow> on_conflict_do_update (sql_values lib d) r) tbl"
proof (induction ds arbitrary: i tbl)
  case Nil
  show ?case by (simp add: latest_def)
next
  case (Cons d ds)
  let ?v = "sql_values lib d"
  let ?u = "\<lambda>r. if key_of r = key_of ?v then on_conflict_do_update ?v r else r"
  from Cons.prems have p: "key_of ?v \<in> key_of ` set tbl" by simp
  have u: "upsert (utcnow s i) ?v tbl = map ?u tbl" by (rule upsert_present[OF p])
  have "key_of ` set ds \<subseteq> key_of ` set (upsert (utcnow s i) ?v tbl)"
    using Cons.prems by (auto simp: upsert_key_set)
  from Cons.IH[OF this]
  have "apply_all lib s (Suc i) ds (upsert (utcnow s i) ?v tbl) =
      map (\<lambda>r. case latest ds (key_of r) of None \<Rightarrow> r
                | Some d \<Rightarrow> on_conflict_do_update (sql_values lib d) r)
        (map ?u tbl)"
    unfolding u .
  also have "\<dots> = map (\<lambda>r. case latest (d # ds) (key_of r) of None \<Rightarrow> r
                            | Some d \<Rightarrow> on_conflict_do_update (sql_values lib d) r) tbl"
    by (auto simp: latest_Cons split: option.splits)
  finally show ?case by simp
qed

text \<open>A row under another key is what it was before the upsert.\<close>

lemma upsert_other:
  assumes "r \<in> set (upsert now d tbl)" and "key_of r \<noteq> key_of d"
  shows "r \<in> set tbl"
proof (cases "key_of d \<in> key_of ` set tbl")
  case True
  with assms(1) obtain r0 where r0: "r0 \<in> set tbl"
    and r: "r = (if key_of r0 = key_of d then on_conflict_do_update d r0 else r0)"
    by (auto simp: upsert_present)
  show ?thesis
  proof (cases "key_of r0 = key_of d")
    case True
    with r assms(2) show ?thesis by simp
  next
    case False
    with r r0 show ?thesis by simp
  qed
next
  case False
  with assms(1) have "r \<in> set tbl \<or> r = insert_values now d tbl" by (auto simp: upsert_absent)
  with assms(2) show ?thesis by auto
qed

text \<open>The row under the key of \<open>d\<close> holds the values of \<open>d\<close> after the upsert.\<close>

lemma upsert_same:
  assumes "r \<in> set (upsert now d tbl)" and "key_of r = key_of d"
  shows "on_conflict_do_update d r = r"
proof (cases "key_of d \<in> key_of ` set tbl")
  case True
  with assms(1) obtain r0 where r0: "r0 \<in> set tbl"
    and r: "r = (if key_of r0 = key_of d then on_conflict_do_update d r0 else r0)"
    by (auto simp: upsert_present)
  show ?thesis
  proof (cases "key_of r0 = key_of d")
    case True
    with r show ?thesis by simp
  next
    case False
    with r assms(2) show ?thesis by simp
  qed
next
  case False
  with assms(1) have "r \<in> set tbl \<or> r = insert_values now d tbl" by (auto simp: upsert_absent)
  moreover have "r \<notin> set tbl" using False assms(2) by (metis imageI)
  ultimately have "r = insert_values now d tbl" by blast
  then show ?thesis by simp
qed

lemma apply_all_other:
  "r \<in> set (apply_all lib s i ds tbl) \<Longrightarrow> key_of r \<notin> key_of ` set ds \<Longrightarrow> r \<in> set tbl"
proof (induction ds arbitrary: i tbl)
  case Nil
  then show ?case by simp
next
  case (Cons d ds)
  from Cons.prems have "r \<in> set (apply_all lib s (Suc i) ds (upsert (utcnow s i) (sql_values lib d) tbl))"
    and "key_of r \<notin> key_of ` set ds" and "key_of r \<noteq> key_of (sql_values lib d)"
    by auto
  from Cons.IH[OF this(1,2)] this(3) show ?case by (rule upsert_other)
qed

text \<open>After a batch, a row whose key is in the batch is not changed by the last statement for its key.\<close>

lemma apply_all_latest:
  "r \<in> set (apply_all lib s i ds tbl) \<Longrightarrow> latest ds (key_of r) = Some d
     \<Longrightarrow> on_conflict_do_update (sql_values lib d) r = r"
proof (induction ds arbitrary: i tbl)
  case Nil
  then show ?case by (simp add: latest_def)
next
  case (Cons d0 ds)
  from Cons.prems(1)
  have m: "r \<in> set (apply_all lib s (Suc i) ds (upsert (utcnow s i) (sql_values lib d0) tbl))"
    by simp
  show ?case
  proof (cases "latest ds (key_of r)")
    case (Some x)
    with Cons.prems(2) have "x = d" by (simp add: latest_Cons)
    with Cons.IH[OF m] Some show ?thesis by simp
  next
    case None
    with Cons.prems(2) have k: "key_of d0 = key_of r" and e: "d = d0"
      by (auto simp: latest_Cons split: if_splits)
    from None have "key_of r \<notin> key_of ` set ds" by (simp add: latest_None)
    from apply_all_other[OF m this] have "r \<in> set (upsert (utcnow s i) (sql_values lib d0) tbl)" .
    from upsert_same[OF this] k e show ?thesis by simp
  qed
qed

text \<open>Running the same batch again changes nothing.\<close>

lemma apply_all_twice:
  "apply_all lib s' j ds (apply_all lib s i ds tbl) = apply_all lib s i ds tbl"
proof -
  let ?t = "apply_all lib s i ds tbl"
  have "key_of ` set ds \<subseteq> key_of ` set ?t" by (simp add: apply_all_key_set)
  from apply_all_present[OF this]
  have "apply_all lib s' j ds ?t =
      map (\<lambda>r. case latest ds (key_of r) of None \<Rightarrow> r
                | Some d \<Rightarrow> on_conflict_do_update (sql_values lib d) r) ?t" .
  also have "\<dots> = map (\<lambda>r. r) ?t"
  proof (rule map_cong[OF refl])
    fix r
    assume "r \<in> set ?t"
    then show "(case latest ds (key_of r) of None \<Rightarrow> r
                | Some d \<Rightarrow> on_conflict_do_update (sql_values lib d) r) = r"
      by (auto split: option.splits dest: apply_all_latest)
  qed
  finally show ?thesis by simp
qed

text \<open>
  The statements of a batch, by cases: they all run if every volume fits 64 bits and
  the database refuses none of them; otherwise the loop is left with an
  \<^verbatim>\<open>OverflowError\<close> or a \<^verbatim>\<open>SQLAlchemyError\<close>.
\<close>

lemma execute_all_ok:
  "list_all (\<lambda>d. int64 (volume d)) ds \<Longrightarrow> (\<forall>j < length ds. execute_error s (i + j) = None)
     \<Longrightarrow> execute_all lib s i ds tbl = Inr (apply_all lib s i ds tbl)"
proof (induction ds arbitrary: i tbl)
  case Nil
  show ?case by simp
next
  case (Cons d ds)
  from Cons.prems have h: "execute_error s i = None" "int64 (volume d)"
    "list_all (\<lambda>d. int64 (volume d)) ds" by auto
  have "\<forall>j < length ds. execute_error s (Suc i + j) = None"
  proof (intro allI impI)
    fix j
    assume "j < length ds"
    then have "Suc j < length (d # ds)" by simp
    with Cons.prems(2) have "execute_error s (i + Suc j) = None" by blast
    then show "execute_error s (Suc i + j) = None" by simp
  qed
  from Cons.IH[OF h(3) this] h(1,2) show ?case by (simp add: session_execute_def)
qed

lemma execute_all_raises:
  "execute_all lib s i ds tbl = Inl x \<Longrightarrow>
     (\<exists>m. x = SQLAlchemyError m) \<or> (\<exists>m. x = OverflowError m)"
  by (induction ds arbitrary: i tbl)
     (auto simp: session_execute_def split: option.splits if_splits sum.splits)

lemma execute_all_in_range:
  "list_all (\<lambda>d. int64 (volume d)) ds \<Longrightarrow> execute_all lib s i ds tbl = Inl x
     \<Longrightarrow> \<exists>m. x = SQLAlchemyError m"
  by (induction ds arbitrary: i tbl)
     (auto simp: session_execute_def split: option.splits if_splits sum.splits)

lemma execute_all_apply_all:
  "execute_all lib s i ds tbl = Inr tbl' \<Longrightarrow>
     tbl' = apply_all lib s i ds tbl \<and> list_all (\<lambda>d. int64 (volume d)) ds
     \<and> (\<forall>j < length ds. execute_error s (i + j) = None)"
proof (induction ds arbitrary: i tbl)
  case Nil
  then show ?case by simp
next
  case (Cons d ds)
  from Cons.prems have h: "int64 (volume d)" "execute_error s i = None"
    and r: "execute_all lib s (Suc i) ds (upsert (utcnow s i) (sql_values lib d) tbl) = Inr tbl'"
    by (auto simp: session_execute_def split: option.splits if_splits sum.splits)
  from Cons.IH[OF r] have t: "tbl' = apply_all lib s (Suc i) ds (upsert (utcnow s i) (sql_values lib d) tbl)"
    and v: "list_all (\<lambda>d. int64 (volume d)) ds"
    and e: "\<forall>j < length ds. execute_error s (Suc i + j) = None"
    by simp_all
  have "\<forall>j < length (d # ds). execute_error s (i + j) = None"
  proof (intro allI impI)
    fix j assume j: "j < length (d # ds)"
    show "execute_error s (i + j) = None"
    proof (cases j)
      case 0
      with h(2) show ?thesis by simp
    next
      case (Suc k)
      with j e show ?thesis by simp
    qed
  qed
  with t v h(1) show ?case by simp
qed

lemma session_accepts_iff:
  "session_accepts s n \<longleftrightarrow> (\<forall>j < n. execute_error s j = None) \<and> commit_error s = None"
  by (auto simp: session_accepts_def list_all_iff)

text \<open>What \<^verbatim>\<open>save_to_database\<close> returns, by cases.\<close>

lemma save_to_database_empty: "save_to_database lib e [] w = (Inr (), w)"
  by (simp add: save_to_database_def)

lemma save_to_database_ok:
  assumes "exchange_rates \<noteq> []"
    and "list_all (\<lambda>d. int64 (volume d)) exchange_rates"
    and "session_accepts (session e (nsession w)) (length exchange_rates)"
  shows "save_to_database lib e exchange_rates w =
           (Inr (), w\<lparr>nsession := nsession w + 1,
                      table := apply_all lib (session e (nsession w)) 0 exchange_rates (table w)\<rparr>)"
proof -
  from assms(3) have a: "\<forall>j < length exchange_rates. execute_error (session e (nsession w)) (0 + j) = None"
    and c: "commit_error (session e (nsession w)) = None"
    by (simp_all add: session_accepts_iff)
  from execute_all_ok[OF assms(2) a] c assms(1) show ?thesis
    by (simp add: save_to_database_def Let_def)
qed

lemma save_to_database_fails:
  assumes "exchange_rates \<noteq> []"
    and "\<not> (list_all (\<lambda>d. int64 (volume d)) exchange_rates
            \<and> session_accepts (session e (nsession w)) (length exchange_rates))"
  shows "\<exists>x. save_to_database lib e exchange_rates w = (Inl x, w\<lparr>nsession := nsession w + 1\<rparr>)
          \<and> ((\<exists>m. x = SQLAlchemyError m) \<or> (\<exists>m. x = OverflowError m))
          \<and> (list_all (\<lambda>d. int64 (volume d)) exchange_rates \<longrightarrow> (\<exists>m. x = SQLAlchemyError m))"
proof (cases "execute_all lib (session e (nsession w)) 0 exchange_rates (table w)")
  case (Inl x)
  from execute_all_raises[OF Inl] execute_all_in_range[OF _ Inl] Inl assms(1)
  show ?thesis by (auto simp: save_to_database_def Let_def)
next
  case (Inr tbl)
  from execute_all_apply_all[OF Inr] assms(2)
  have "commit_error (session e (nsession w)) \<noteq> None"
    by (auto simp: session_accepts_iff)
  then obtain m where "commit_error (session e (nsession w)) = Some m" by blast
  with Inr assms(1) show ?thesis by (simp add: save_to_database_def Let_def)
qed

lemma save_to_database_Inr:
  assumes "save_to_database lib e exchange_rates w = (Inr u, w1)" and "exchange_rates \<noteq> []"
  shows "list_all (\<lambda>d. int64 (volume d)) exchange_rates"
    and "session_accepts (session e (nsession w)) (length exchange_rates)"
    and "w1 = w\<lparr>nsession := nsession w + 1,
                table := apply_all lib (session e (nsession w)) 0 exchange_rates (table w)\<rparr>"
proof -
  have ok: "list_all (\<lambda>d. int64 (volume d)) exchange_rates
      \<and> session_accepts (session e (nsession w)) (length exchange_rates)"
  proof (rule ccontr)
    assume n: "\<not> (list_all (\<lambda>d. int64 (volume d)) exchange_rates
      \<and> session_accepts (session e (nsession w)) (length exchange_rates))"
    from save_to_database_fails[OF assms(2) n, of lib] assms(1) show False by auto
  qed
  then show "list_all (\<lambda>d. int64 (volume d)) exchange_rates"
    and "session_accepts (session e (nsession w)) (length exchange_rates)" by simp_all
  with save_to_database_ok[OF assms(2), of e w lib] assms(1)
  show "w1 = w\<lparr>nsession := nsession w + 1,
                table := apply_all lib (session e (nsession w)) 0 exchange_rates (table w)\<rparr>"
    by simp
qed

text \<open>The committed table after a call is the old one or the one that the whole batch gives.\<close>

lemma save_to_database_table:
  "table (snd (save_to_database lib e ds w)) = table w
   \<or> table (snd (save_to_database lib e ds w)) = apply_all lib (session e (nsession w)) 0 ds (table w)"
proof (cases "ds = []")
  case True
  then show ?thesis by (simp add: save_to_database_empty)
next
  case False
  show ?thesis
  proof (cases "list_all (\<lambda>d. int64 (volume d)) ds \<and> session_accepts (session e (nsession w)) (length ds)")
    case True
    with save_to_database_ok[OF False, of e w lib] show ?thesis by simp
  next
    case n: False
    from save_to_database_fails[OF False n, of lib] obtain x where
      "save_to_database lib e ds w = (Inl x, w\<lparr>nsession := nsession w + 1\<rparr>)" by blast
    then show ?thesis by simp
  qed
qed

text \<open>
  C3 (as amended). After a save that returns, the table holds under every key of the
  batch one row with the values of the last dictionary given for that key, as SQLite
  stores them: a rate that is a NaN is stored as \<^verbatim>\<open>NULL\<close>, every other value as it is.
  The row keeps the \<^verbatim>\<open>created_at\<close> and the \<^verbatim>\<open>id\<close> that it had before the save; a row
  that the save inserts has the time of the first statement for its key. Rows under
  other keys are not touched, and keys that were unique stay unique (no duplicate
  rows). Saving the batch a second time leaves the table as it is after the first
  save. Saving \<open>b\<close> after a batch that holds a dictionary \<open>a\<close> with the same
  (currency_pair, date) leaves one row under that key: it has the values of \<open>b\<close> in the
  eight columns of the dictionary and the \<^verbatim>\<open>created_at\<close> and \<^verbatim>\<open>id\<close> that the row had
  before. A dictionary whose volume does not fit 64 bits is not saved: the call raises
  \<^verbatim>\<open>OverflowError\<close> and the table stays as it is.
\<close>

theorem save_idempotent_last_write_wins:
  assumes "save_to_database lib e records w = (Inr (), w1)"
  shows "(\<forall>k. case latest records k of
             None \<Rightarrow> stored (table w1) k = stored (table w) k
           | Some d \<Rightarrow>
               (\<exists>r. stored (table w1) k = Some r
                  \<and> values_of r = sql_values lib d
                  \<and> (\<not> has_nan lib d \<longrightarrow> values_of r = all_present d)
                  \<and> (case stored (table w) k of
                        Some r0 \<Rightarrow> created_at r = created_at r0 \<and> row_id r = row_id r0
                      | None \<Rightarrow> created_at r =
                          utcnow (session e (nsession w)) (first_index records k))))
       \<and> (distinct (map key_of (table w)) \<longrightarrow> distinct (map key_of (table w1)))
       \<and> table (snd (save_to_database lib e' records w1)) = table w1
       \<and> (\<forall>a \<in> set records.
            key_of b = key_of a \<and> save_to_database lib e' [b] w1 = (Inr (), w2) \<longrightarrow>
            (\<exists>r1 r2. stored (table w1) (key_of a) = Some r1
               \<and> stored (table w2) (key_of a) = Some r2
               \<and> values_of r2 = sql_values lib b
               \<and> (\<not> has_nan lib b \<longrightarrow> values_of r2 = all_present b)
               \<and> created_at r2 = created_at r1 \<and> row_id r2 = row_id r1
               \<and> length (table w2) = length (table w1)))
       \<and> (\<not> int64 (volume b) \<longrightarrow>
            save_to_database lib e' [b] w1
              = (Inl (OverflowError ''Python int too large to convert to SQLite INTEGER''),
                 w1\<lparr>nsession := nsession w1 + 1\<rparr>))"
proof -
  have over: "\<not> int64 (volume b) \<longrightarrow>
            save_to_database lib e' [b] w1
              = (Inl (OverflowError ''Python int too large to convert to SQLite INTEGER''),
                 w1\<lparr>nsession := nsession w1 + 1\<rparr>)"
    by (simp add: save_to_database_def session_execute_def Let_def)
  have main: "(\<forall>k. case latest records k of
             None \<Rightarrow> stored (table w1) k = stored (table w) k
           | Some d \<Rightarrow>
               (\<exists>r. stored (table w1) k = Some r
                  \<and> values_of r = sql_values lib d
                  \<and> (\<not> has_nan lib d \<longrightarrow> values_of r = all_present d)
                  \<and> (case stored (table w) k of
                        Some r0 \<Rightarrow> created_at r = created_at r0 \<and> row_id r = row_id r0
                      | None \<Rightarrow> created_at r =
                          utcnow (session e (nsession w)) (first_index records k))))
       \<and> (distinct (map key_of (table w)) \<longrightarrow> distinct (map key_of (table w1)))
       \<and> table (snd (save_to_database lib e' records w1)) = table w1
       \<and> (\<forall>a \<in> set records.
            key_of b = key_of a \<and> save_to_database lib e' [b] w1 = (Inr (), w2) \<longrightarrow>
            (\<exists>r1 r2. stored (table w1) (key_of a) = Some r1
               \<and> stored (table w2) (key_of a) = Some r2
               \<and> values_of r2 = sql_values lib b
               \<and> (\<not> has_nan lib b \<longrightarrow> values_of r2 = all_present b)
               \<and> created_at r2 = created_at r1 \<and> row_id r2 = row_id r1
               \<and> length (table w2) = length (table w1)))"
  proof (cases "records = []")
  case True
  with assms have "w1 = w" by (simp add: save_to_database_empty)
  with True show ?thesis by (simp add: save_to_database_empty latest_def)
  next
  case False
  let ?s = "session e (nsession w)"
  from save_to_database_Inr(3)[OF assms False]
  have t1: "table w1 = apply_all lib ?s 0 records (table w)" by simp
  have batch: "\<forall>k. case latest records k of
             None \<Rightarrow> stored (table w1) k = stored (table w) k
           | Some d \<Rightarrow>
               (\<exists>r. stored (table w1) k = Some r
                  \<and> values_of r = sql_values lib d
                  \<and> (\<not> has_nan lib d \<longrightarrow> values_of r = all_present d)
                  \<and> (case stored (table w) k of
                        Some r0 \<Rightarrow> created_at r = created_at r0 \<and> row_id r = row_id r0
                      | None \<Rightarrow> created_at r = utcnow ?s (first_index records k)))"
  proof
    fix k
    show "case latest records k of
             None \<Rightarrow> stored (table w1) k = stored (table w) k
           | Some d \<Rightarrow>
               (\<exists>r. stored (table w1) k = Some r
                  \<and> values_of r = sql_values lib d
                  \<and> (\<not> has_nan lib d \<longrightarrow> values_of r = all_present d)
                  \<and> (case stored (table w) k of
                        Some r0 \<Rightarrow> created_at r = created_at r0 \<and> row_id r = row_id r0
                      | None \<Rightarrow> created_at r = utcnow ?s (first_index records k)))"
    proof (cases "latest records k")
      case None
      from apply_all_stored_other[OF None, of lib ?s 0 "table w"] None show ?thesis
        by (simp add: t1)
    next
      case (Some d)
      from apply_all_stored_latest[OF Some, of lib ?s 0 "table w"] obtain r where
        r: "stored (table w1) k = Some r" and v: "values_of r = sql_values lib d"
        unfolding t1 by blast
      from v have p: "\<not> has_nan lib d \<longrightarrow> values_of r = all_present d"
        by (simp add: sql_values_no_nan)
      have c: "case stored (table w) k of
                 Some r0 \<Rightarrow> created_at r = created_at r0 \<and> row_id r = row_id r0
               | None \<Rightarrow> created_at r = utcnow ?s (first_index records k)"
      proof (cases "stored (table w) k")
        case None
        from apply_all_stored_new[OF None Some, of lib ?s 0] r None show ?thesis
          by (simp add: t1)
      next
        case (Some r0)
        from apply_all_stored_kept[OF Some, of lib ?s 0 records] r Some show ?thesis
          by (simp add: t1)
      qed
      from r v p c Some show ?thesis by simp
    qed
  qed
  have dist: "distinct (map key_of (table w)) \<longrightarrow> distinct (map key_of (table w1))"
    unfolding t1 by (simp add: apply_all_distinct)
  have "apply_all lib (session e' (nsession w1)) 0 records (table w1) = table w1"
    unfolding t1 by (rule apply_all_twice)
  with save_to_database_table[of lib e' records w1]
  have idem: "table (snd (save_to_database lib e' records w1)) = table w1" by auto
  have lww: "\<forall>a \<in> set records.
            key_of b = key_of a \<and> save_to_database lib e' [b] w1 = (Inr (), w2) \<longrightarrow>
            (\<exists>r1 r2. stored (table w1) (key_of a) = Some r1
               \<and> stored (table w2) (key_of a) = Some r2
               \<and> values_of r2 = sql_values lib b
               \<and> (\<not> has_nan lib b \<longrightarrow> values_of r2 = all_present b)
               \<and> created_at r2 = created_at r1 \<and> row_id r2 = row_id r1
               \<and> length (table w2) = length (table w1))"
  proof (intro ballI impI)
    fix a
    assume a: "a \<in> set records"
      and h: "key_of b = key_of a \<and> save_to_database lib e' [b] w1 = (Inr (), w2)"
    let ?now = "utcnow (session e' (nsession w1)) 0"
    from h have k: "key_of b = key_of a" by simp
    from h save_to_database_Inr(3)[of lib e' "[b]" w1 "()" w2]
    have t2: "table w2 = upsert ?now (sql_values lib b) (table w1)" by simp
    from a have p: "key_of a \<in> key_of ` set (table w1)"
      unfolding t1 apply_all_key_set by simp
    then obtain r1 where r1: "stored (table w1) (key_of a) = Some r1"
      by (cases "stored (table w1) (key_of a)") (auto simp: stored_None)
    let ?r2 = "on_conflict_do_update (sql_values lib b) r1"
    from r1 k have r2: "stored (table w2) (key_of a) = Some ?r2"
      unfolding t2 by (simp add: stored_upsert)
    from p k have len: "length (table w2) = length (table w1)"
      unfolding t2 by (simp add: upsert_length)
    have "values_of ?r2 = sql_values lib b"
      "\<not> has_nan lib b \<longrightarrow> values_of ?r2 = all_present b"
      "created_at ?r2 = created_at r1" "row_id ?r2 = row_id r1"
      by (simp_all add: sql_values_no_nan)
    with r1 r2 len
    show "\<exists>r1 r2. stored (table w1) (key_of a) = Some r1
               \<and> stored (table w2) (key_of a) = Some r2
               \<and> values_of r2 = sql_values lib b
               \<and> (\<not> has_nan lib b \<longrightarrow> values_of r2 = all_present b)
               \<and> created_at r2 = created_at r1 \<and> row_id r2 = row_id r1
               \<and> length (table w2) = length (table w1)"
      by blast
  qed
    from batch dist idem lww show ?thesis by blast
  qed
  from main over show ?thesis by blast
qed

theorem save_idempotent_last_write_wins_witness:
  "save_to_database (sample_lib sample_soup) (env_of []) [rate_a, rate_c, rate_b] world0
     = (Inr (), world0\<lparr>nsession := 1, table := [row_b, row_c]\<rparr>)
   \<and> latest [rate_a, rate_c, rate_b] (key_of rate_a) = Some rate_b
   \<and> stored [row_b, row_c] (key_of rate_a) = Some row_b
   \<and> \<not> has_nan (sample_lib sample_soup) rate_b
   \<and> values_of row_b = all_present rate_b
   \<and> stored (table world0) (key_of rate_a) = None
   \<and> created_at row_b
       = utcnow (session (env_of []) (nsession world0))
           (first_index [rate_a, rate_c, rate_b] (key_of rate_a))
   \<and> distinct (map key_of (table world0))
   \<and> distinct (map key_of [row_b, row_c])
   \<and> table (snd (save_to_database (sample_lib sample_soup) (env_of []) [rate_a, rate_c, rate_b]
        (world0\<lparr>nsession := 1, table := [row_b, row_c]\<rparr>))) = [row_b, row_c]
   \<and> rate_a \<in> set [rate_a, rate_c, rate_b]
   \<and> key_of rate_nan = key_of rate_a
   \<and> save_to_database (sample_lib sample_soup) (env_of []) [rate_nan]
        (world0\<lparr>nsession := 1, table := [row_b, row_c]\<rparr>)
     = (Inr (), world0\<lparr>nsession := 2, table := [row_nan, row_c]\<rparr>)
   \<and> stored [row_nan, row_c] (key_of rate_a) = Some row_nan
   \<and> values_of row_nan = sql_values (sample_lib sample_soup) rate_nan
   \<and> created_at row_nan = created_at row_b \<and> row_id row_nan = row_id row_b
   \<and> \<not> int64 (volume rate_big)
   \<and> save_to_database (sample_lib sample_soup) (env_of []) [rate_big]
        (world0\<lparr>nsession := 1, table := [row_b, row_c]\<rparr>)
     = (Inl (OverflowError ''Python int too large to convert to SQLite INTEGER''),
        world0\<lparr>nsession := 2, table := [row_b, row_c]\<rparr>)"
proof -
  let ?L = "sample_lib sample_soup"
  let ?w1 = "world0\<lparr>nsession := 1, table := [row_b, row_c]\<rparr>"
  let ?w2 = "world0\<lparr>nsession := 2, table := [row_nan, row_c]\<rparr>"
  have h1: "save_to_database ?L (env_of []) [rate_a, rate_c, rate_b] world0 = (Inr (), ?w1)"
    by code_simp
  have h2: "save_to_database ?L (env_of []) [rate_nan] ?w1 = (Inr (), ?w2)"
    by code_simp
  have a: "latest [rate_a, rate_c, rate_b] (key_of rate_a) = Some rate_b"
    "stored [row_b, row_c] (key_of rate_a) = Some row_b"
    "\<not> has_nan ?L rate_b"
    "values_of row_b = all_present rate_b"
    "stored (table world0) (key_of rate_a) = None"
    "created_at row_b = utcnow (session (env_of []) (nsession world0))
        (first_index [rate_a, rate_c, rate_b] (key_of rate_a))"
    "distinct (map key_of (table world0))"
    "distinct (map key_of [row_b, row_c])"
    by code_simp+
  have b: "rate_a \<in> set [rate_a, rate_c, rate_b]" "key_of rate_nan = key_of rate_a"
    "stored [row_nan, row_c] (key_of rate_a) = Some row_nan"
    "values_of row_nan = sql_values ?L rate_nan"
    "created_at row_nan = created_at row_b" "row_id row_nan = row_id row_b"
    by code_simp+
  from save_idempotent_last_write_wins[OF h1, of "env_of []"]
  have "table (snd (save_to_database ?L (env_of []) [rate_a, rate_c, rate_b] ?w1)) = table ?w1"
    by blast
  then have idem: "table (snd (save_to_database ?L (env_of []) [rate_a, rate_c, rate_b] ?w1))
      = [row_b, row_c]"
    by simp
  have big: "\<not> int64 (volume rate_big)" by code_simp
  with save_idempotent_last_write_wins[OF h1, where b = rate_big and e' = "env_of []"]
  have "save_to_database ?L (env_of []) [rate_big] ?w1
     = (Inl (OverflowError ''Python int too large to convert to SQLite INTEGER''),
        ?w1\<lparr>nsession := nsession ?w1 + 1\<rparr>)"
    by blast
  then have h3: "save_to_database ?L (env_of []) [rate_big] ?w1
     = (Inl (OverflowError ''Python int too large to convert to SQLite INTEGER''),
        world0\<lparr>nsession := 2, table := [row_b, row_c]\<rparr>)"
    by (simp add: world0_def)
  from h1 a idem b h2 big h3 show ?thesis by blast
qed

text \<open>
  C3 as stated fails for a NaN and for a volume outside 64 bits. After \<open>rate_a\<close>,
  the save of \<open>rate_nan\<close> (same key, close NaN) returns, and the stored row has
  \<^verbatim>\<open>NULL\<close> for the close, not the close of \<open>rate_nan\<close>. The save of \<open>rate_big\<close> (same
  key, volume \<open>2 ^ 63\<close>) raises \<^verbatim>\<open>OverflowError\<close> and the row keeps the values of
  \<open>rate_a\<close>.
\<close>

theorem save_last_write_claim_counterexample:
  "save_to_database (sample_lib sample_soup) (env_of []) [rate_a] world0
     = (Inr (), world0\<lparr>nsession := 1, table := [row_a]\<rparr>)
   \<and> key_of rate_nan = key_of rate_a
   \<and> save_to_database (sample_lib sample_soup) (env_of []) [rate_nan]
        (world0\<lparr>nsession := 1, table := [row_a]\<rparr>)
     = (Inr (), world0\<lparr>nsession := 2, table := [row_nan]\<rparr>)
   \<and> stored [row_nan] (key_of rate_nan) = Some row_nan
   \<and> close_rate rate_nan = NaN
   \<and> close_rate row_nan = None
   \<and> values_of row_nan \<noteq> all_present rate_nan
   \<and> key_of rate_big = key_of rate_a
   \<and> save_to_database (sample_lib sample_soup) (env_of []) [rate_big]
        (world0\<lparr>nsession := 1, table := [row_a]\<rparr>)
     = (Inl (OverflowError ''Python int too large to convert to SQLite INTEGER''),
        world0\<lparr>nsession := 2, table := [row_a]\<rparr>)
   \<and> stored [row_a] (key_of rate_big) = Some row_a
   \<and> volume row_a \<noteq> volume rate_big"
  by code_simp

text \<open>
  C4. The empty batch returns at once and changes nothing. For any other batch, the
  save returns if and only if every volume fits 64 bits and the session refuses no
  statement and not the commit. Then all records are committed: under the key of
  every record of the batch the table holds a row with the values of the last record
  given for that key, and the rows under other keys are as before. Otherwise none is:
  the call raises (a \<^verbatim>\<open>SQLAlchemyError\<close>, re-raised after the rollback, or the
  \<^verbatim>\<open>OverflowError\<close> of a volume outside 64 bits) and the committed table is what it
  was, whatever statements had run before the failure.
\<close>

theorem save_atomic:
  "save_to_database lib e [] w = (Inr (), w)
   \<and> (records \<noteq> [] \<longrightarrow>
        (if list_all (\<lambda>d. int64 (volume d)) records
            \<and> session_accepts (session e (nsession w)) (length records)
         then (\<exists>tbl. save_to_database lib e records w
                        = (Inr (), w\<lparr>nsession := nsession w + 1, table := tbl\<rparr>)
                 \<and> (\<forall>d \<in> set records. \<exists>d' r.
                        latest records (key_of d) = Some d'
                      \<and> stored tbl (key_of d) = Some r
                      \<and> values_of r = sql_values lib d')
                 \<and> (\<forall>k. k \<notin> key_of ` set records \<longrightarrow> stored tbl k = stored (table w) k))
         else (\<exists>x w1. save_to_database lib e records w = (Inl x, w1)
                 \<and> table w1 = table w
                 \<and> w1 = w\<lparr>nsession := nsession w + 1\<rparr>
                 \<and> ((\<exists>m. x = SQLAlchemyError m) \<or> (\<exists>m. x = OverflowError m))
                 \<and> (list_all (\<lambda>d. int64 (volume d)) records \<longrightarrow> (\<exists>m. x = SQLAlchemyError m)))))"
proof -
  let ?s = "session e (nsession w)"
  let ?ok = "list_all (\<lambda>d. int64 (volume d)) records \<and> session_accepts ?s (length records)"
  let ?tbl = "apply_all lib ?s 0 records (table w)"
  have good: "records \<noteq> [] \<Longrightarrow> ?ok \<Longrightarrow>
      (\<exists>tbl. save_to_database lib e records w
                        = (Inr (), w\<lparr>nsession := nsession w + 1, table := tbl\<rparr>)
                 \<and> (\<forall>d \<in> set records. \<exists>d' r.
                        latest records (key_of d) = Some d'
                      \<and> stored tbl (key_of d) = Some r
                      \<and> values_of r = sql_values lib d')
                 \<and> (\<forall>k. k \<notin> key_of ` set records \<longrightarrow> stored tbl k = stored (table w) k))"
  proof -
    assume ne: "records \<noteq> []" and ok: "?ok"
    from ok save_to_database_ok[OF ne, of e w lib]
    have s: "save_to_database lib e records w
        = (Inr (), w\<lparr>nsession := nsession w + 1, table := ?tbl\<rparr>)" by simp
    have all: "\<forall>d \<in> set records. \<exists>d' r.
                        latest records (key_of d) = Some d'
                      \<and> stored ?tbl (key_of d) = Some r
                      \<and> values_of r = sql_values lib d'"
    proof
      fix d assume "d \<in> set records"
      then have "latest records (key_of d) \<noteq> None" by (simp add: latest_None)
      then obtain d' where l: "latest records (key_of d) = Some d'" by blast
      from apply_all_stored_latest[OF l, of lib ?s 0 "table w"] l
      show "\<exists>d' r. latest records (key_of d) = Some d'
                      \<and> stored ?tbl (key_of d) = Some r
                      \<and> values_of r = sql_values lib d'"
        by blast
    qed
    have other: "\<forall>k. k \<notin> key_of ` set records \<longrightarrow> stored ?tbl k = stored (table w) k"
      by (simp add: apply_all_stored_other latest_None)
    from s all other show ?thesis by blast
  qed
  have bad: "records \<noteq> [] \<Longrightarrow> \<not> ?ok \<Longrightarrow>
      (\<exists>x w1. save_to_database lib e records w = (Inl x, w1)
                 \<and> table w1 = table w
                 \<and> w1 = w\<lparr>nsession := nsession w + 1\<rparr>
                 \<and> ((\<exists>m. x = SQLAlchemyError m) \<or> (\<exists>m. x = OverflowError m))
                 \<and> (list_all (\<lambda>d. int64 (volume d)) records \<longrightarrow> (\<exists>m. x = SQLAlchemyError m)))"
  proof -
    assume ne: "records \<noteq> []" and n: "\<not> ?ok"
    from save_to_database_fails[OF ne n, of lib] obtain x where
      "save_to_database lib e records w = (Inl x, w\<lparr>nsession := nsession w + 1\<rparr>)"
      "(\<exists>m. x = SQLAlchemyError m) \<or> (\<exists>m. x = OverflowError m)"
      "list_all (\<lambda>d. int64 (volume d)) records \<longrightarrow> (\<exists>m. x = SQLAlchemyError m)"
      by blast
    then show ?thesis by simp
  qed
  let ?A = "\<exists>tbl. save_to_database lib e records w
                        = (Inr (), w\<lparr>nsession := nsession w + 1, table := tbl\<rparr>)
                 \<and> (\<forall>d \<in> set records. \<exists>d' r.
                        latest records (key_of d) = Some d'
                      \<and> stored tbl (key_of d) = Some r
                      \<and> values_of r = sql_values lib d')
                 \<and> (\<forall>k. k \<notin> key_of ` set records \<longrightarrow> stored tbl k = stored (table w) k)"
  let ?B = "\<exists>x w1. save_to_database lib e records w = (Inl x, w1)
                 \<and> table w1 = table w
                 \<and> w1 = w\<lparr>nsession := nsession w + 1\<rparr>
                 \<and> ((\<exists>m. x = SQLAlchemyError m) \<or> (\<exists>m. x = OverflowError m))
                 \<and> (list_all (\<lambda>d. int64 (volume d)) records \<longrightarrow> (\<exists>m. x = SQLAlchemyError m))"
  have e0: "save_to_database lib e [] w = (Inr (), w)" by (rule save_to_database_empty)
  have "records \<noteq> [] \<longrightarrow> (if ?ok then ?A else ?B)"
  proof (cases ?ok)
    case True
    with good have "records \<noteq> [] \<longrightarrow> ?A" by blast
    then show ?thesis by (simp only: if_P[OF True])
  next
    case False
    with bad have "records \<noteq> [] \<longrightarrow> ?B" by blast
    then show ?thesis by (simp only: if_not_P[OF False])
  qed
  with e0 show ?thesis by (rule conjI)
qed

text \<open>
  A batch of three records that is committed, and two that are not, started on the
  table that the first one leaves: in the second the database refuses the second
  statement, after the first statement has run in the session; in the third the
  second record has the volume \<open>2 ^ 63\<close>.
\<close>

theorem save_atomic_witness:
  "save_to_database (sample_lib sample_soup) (env_of []) [] world0 = (Inr (), world0)
   \<and> [rate_a, rate_c, rate_b] \<noteq> []
   \<and> list_all (\<lambda>d. int64 (volume d)) [rate_a, rate_c, rate_b]
   \<and> session_accepts (session (env_of []) (nsession world0)) (length [rate_a, rate_c, rate_b])
   \<and> save_to_database (sample_lib sample_soup) (env_of []) [rate_a, rate_c, rate_b] world0
       = (Inr (), world0\<lparr>nsession := 1, table := [row_b, row_c]\<rparr>)
   \<and> latest [rate_a, rate_c, rate_b] (key_of rate_a) = Some rate_b
   \<and> stored [row_b, row_c] (key_of rate_a) = Some row_b
   \<and> values_of row_b = sql_values (sample_lib sample_soup) rate_b
   \<and> latest [rate_a, rate_c, rate_b] (key_of rate_c) = Some rate_c
   \<and> stored [row_b, row_c] (key_of rate_c) = Some row_c
   \<and> values_of row_c = sql_values (sample_lib sample_soup) rate_c
   \<and> list_all (\<lambda>d. int64 (volume d)) [rate_a, rate_c]
   \<and> \<not> session_accepts (session failing_env 1) (length [rate_a, rate_c])
   \<and> session_execute (sample_lib sample_soup) (session failing_env 1) 0 rate_a [row_b, row_c]
       = Inr [row_a, row_c]
   \<and> save_to_database (sample_lib sample_soup) failing_env [rate_a, rate_c]
        (world0\<lparr>nsession := 1, table := [row_b, row_c]\<rparr>)
       = (Inl (SQLAlchemyError ''database is locked''),
          world0\<lparr>nsession := 2, table := [row_b, row_c]\<rparr>)
   \<and> \<not> list_all (\<lambda>d. int64 (volume d)) [rate_a, rate_big]
   \<and> save_to_database (sample_lib sample_soup) (env_of []) [rate_a, rate_big]
        (world0\<lparr>nsession := 1, table := [row_b, row_c]\<rparr>)
       = (Inl (OverflowError ''Python int too large to convert to SQLite INTEGER''),
          world0\<lparr>nsession := 2, table := [row_b, row_c]\<rparr>)"
proof -
  let ?L = "sample_lib sample_soup"
  let ?w1 = "world0\<lparr>nsession := 1, table := [row_b, row_c]\<rparr>"
  have ne: "[rate_a, rate_c, rate_b] \<noteq> []" "[rate_a, rate_c] \<noteq> []" by simp_all
  have ok: "list_all (\<lambda>d. int64 (volume d)) [rate_a, rate_c, rate_b]"
    "session_accepts (session (env_of []) (nsession world0)) (length [rate_a, rate_c, rate_b])"
    by code_simp+
  have c: "latest [rate_a, rate_c, rate_b] (key_of rate_a) = Some rate_b"
    "stored [row_b, row_c] (key_of rate_a) = Some row_b"
    "values_of row_b = sql_values ?L rate_b"
    "latest [rate_a, rate_c, rate_b] (key_of rate_c) = Some rate_c"
    "stored [row_b, row_c] (key_of rate_c) = Some row_c"
    "values_of row_c = sql_values ?L rate_c"
    by code_simp+
  have s1: "save_to_database ?L (env_of []) [rate_a, rate_c, rate_b] world0 = (Inr (), ?w1)"
    by code_simp
  have n2: "list_all (\<lambda>d. int64 (volume d)) [rate_a, rate_c]"
    "\<not> session_accepts (session failing_env 1) (length [rate_a, rate_c])"
    "session_execute ?L (session failing_env 1) 0 rate_a [row_b, row_c] = Inr [row_a, row_c]"
    "nsession ?w1 = 1"
    by code_simp+
  from save_atomic[of ?L failing_env ?w1 "[rate_a, rate_c]"] ne(2) n2(1,2,4)
  obtain x v where f: "save_to_database ?L failing_env [rate_a, rate_c] ?w1 = (Inl x, v)"
    and t: "table v = table ?w1"
    by auto
  have s2: "save_to_database ?L failing_env [rate_a, rate_c] ?w1
       = (Inl (SQLAlchemyError ''database is locked''),
          world0\<lparr>nsession := 2, table := [row_b, row_c]\<rparr>)"
    by code_simp
  have n3: "\<not> list_all (\<lambda>d. int64 (volume d)) [rate_a, rate_big]" by code_simp
  have s3: "save_to_database ?L (env_of []) [rate_a, rate_big] ?w1
       = (Inl (OverflowError ''Python int too large to convert to SQLite INTEGER''),
          world0\<lparr>nsession := 2, table := [row_b, row_c]\<rparr>)"
    by code_simp
  have s0: "save_to_database ?L (env_of []) [] world0 = (Inr (), world0)"
    using save_atomic[of ?L "env_of []" world0] by blast
  from s0 ne(1) ok s1 c n2(1,2,3) s2 n3 s3 show ?thesis by blast
qed

subsection \<open>\<^verbatim>\<open>get_exchange_data\<close> and the sync of a pair\<close>

text \<open>The tasks of the later chunks run whatever the earlier ones did.\<close>

lemma run_chunks_append:
  "run_chunks lib e self quote (cs1 @ cs2) all_data w =
     run_chunks lib e self quote cs2
       (fst (run_chunks lib e self quote cs1 all_data w))
       (snd (run_chunks lib e self quote cs1 all_data w))"
proof (induction cs1 arbitrary: all_data w)
  case Nil
  show ?case by simp
next
  case (Cons c cs1)
  obtain r w1 where t: "fetch_and_save_chunk lib e self quote (fst c) (snd c) w = (r, w1)"
    by (cases "fetch_and_save_chunk lib e self quote (fst c) (snd c) w")
  show ?case
  proof (cases r)
    case (Inl x)
    with t Cons.IH[of all_data w1] show ?thesis by simp
  next
    case (Inr data)
    with t Cons.IH[of "if truthy data then all_data @ [the data] else all_data" w1]
    show ?thesis by simp
  qed
qed


lemma plan_chunks_empty: "to_date \<le> from_date \<Longrightarrow> plan_chunks from_date to_date = []"
  by (simp add: plan_chunks_eq_windows windows_empty)








text \<open>A fetch of a chunk that is not cached and whose three attempts fail gives \<^verbatim>\<open>None\<close>.\<close>

lemma fetch_chunk_all_fail:
  assumes "map_of (cache w) (self, quote, from_date, to_date) = None"
    and "\<forall>i < 3. \<not> ok_response (attempt_response e w quote from_date to_date i)"
  shows "fst (fetch_chunk e self quote from_date to_date w) = None"
proof -
  obtain v w' where b: "fetch_chunk_body e quote from_date to_date w = (v, w')"
    by (cases "fetch_chunk_body e quote from_date to_date w")
  from assms(2) have "\<not> ok_response (attempt_response e w quote from_date to_date 0)"
    "\<not> ok_response (attempt_response e w quote from_date to_date 1)"
    "\<not> ok_response (attempt_response e w quote from_date to_date 2)"
    by simp_all
  from fetch_chunk_body_all_fail[OF this] b have "v = None" by simp
  with fetch_chunk_miss[OF assms(1) b] show ?thesis by simp
qed






lemma task_order_Nil [simp]: "task_order e [] = []"
  by (simp add: task_order_def Let_def)










text \<open>
  C9 (as amended). The code has no check of the range and no \<^verbatim>\<open>InvalidRangeError\<close>.
  For \<open>from_date \<ge> to_date\<close> (both timestamps accepted by \<^verbatim>\<open>datetime.fromtimestamp\<close>)
  the loop plans no chunk, \<^verbatim>\<open>get_exchange_data\<close> makes no request, leaves the state as
  it is and returns \<^verbatim>\<open>None\<close> without raising; a sync over such a range reports
  \<^verbatim>\<open>Failed to fetch data\<close> for every period. Nothing is retried.
\<close>

theorem get_exchange_data_empty_range:
  assumes "to_date \<le> from_date"
    and "fromtimestamp_ok lib from_date" and "fromtimestamp_ok lib to_date"
  shows "plan_chunks from_date to_date = []
       \<and> get_exchange_data lib e self quote from_date to_date w = (Inr None, w)
       \<and> sync_range lib e pair end_date from_date to_date w
           = (all_periods pair ''Failed to fetch data'', w\<lparr>ninstance := ninstance w + 1\<rparr>)"
proof -
  have p: "plan_chunks from_date to_date = []" by (rule plan_chunks_empty[OF assms(1)])
  have g: "\<And>self quote w. get_exchange_data lib e self quote from_date to_date w = (Inr None, w)"
    using assms(2,3) by (simp add: get_exchange_data_def fromtimestamp_ok_def p)
  have "sync_try lib e pair end_date from_date to_date w
      = (Inr (all_periods pair ''Failed to fetch data''), w\<lparr>ninstance := ninstance w + 1\<rparr>)"
    by (simp add: sync_try_def Let_def g)
  then have s: "sync_range lib e pair end_date from_date to_date w
           = (all_periods pair ''Failed to fetch data'', w\<lparr>ninstance := ninstance w + 1\<rparr>)"
    by (simp add: sync_range_def)
  from p g s show ?thesis by simp
qed

theorem get_exchange_data_empty_range_witness:
  "(1704888000 :: int) \<le> 1704888000
   \<and> fromtimestamp_ok (sample_lib sample_soup) 1704888000
   \<and> plan_chunks 1704888000 1704888000 = []
   \<and> get_exchange_data (sample_lib sample_soup) (env_of []) 0 ''GBPINR=X''
        1704888000 1704888000 world0 = (Inr None, world0)
   \<and> fst (sync_range (sample_lib sample_soup) (env_of []) ''GBPINR=X'' 63840484800000000
        1704888000 1704888000 world0) = all_periods ''GBPINR=X'' ''Failed to fetch data''"
proof -
  have h: "(1704888000 :: int) \<le> 1704888000" by simp
  have ok: "fromtimestamp_ok (sample_lib sample_soup) 1704888000"
    by (simp add: fromtimestamp_ok_def sample_lib_def)
  note t = get_exchange_data_empty_range[OF h ok ok, of "env_of []" 0 "''GBPINR=X''" world0
      "''GBPINR=X''" 63840484800000000]
  then have "fst (sync_range (sample_lib sample_soup) (env_of []) ''GBPINR=X'' 63840484800000000
        1704888000 1704888000 world0) = all_periods ''GBPINR=X'' ''Failed to fetch data''"
    by simp
  with t h ok show ?thesis by blast
qed

text \<open>
  C9 as stated fails: for an empty range and for a reversed one, \<^verbatim>\<open>get_exchange_data\<close>
  returns \<^verbatim>\<open>None\<close> (the right summand, no exception) and changes nothing.
\<close>

theorem get_exchange_data_range_counterexample:
  "get_exchange_data (sample_lib sample_soup) (env_of []) 0 ''GBPINR=X''
      1704888000 1704888000 world0 = (Inr None, world0)
   \<and> get_exchange_data (sample_lib sample_soup) (env_of []) 0 ''GBPINR=X''
      1704888000 1695902400 world0 = (Inr None, world0)"
  by (simp add: get_exchange_data_def plan_chunks_empty sample_lib_def)










end
